theory Spec2Isabelle
  imports Main
begin

section \<open>Values exchanged with the outside\<close>

text \<open>
  The route handlers of the repository (\<^verbatim>\<open>app/api/register\<close>, the login route
  that follows it in the same source file, \<^verbatim>\<open>app/api/logout\<close> and the profile
  route) are modelled as functions from an environment, a request and the state of the
  two MongoDB collections to a response and the new state.

  Strings are lists of 8-bit characters, read as the code units \<open>0..255\<close> of a
  JavaScript string; \<open>length\<close> is JavaScript's \<^verbatim>\<open>.length\<close> on such strings.
  A \<^verbatim>\<open>Date\<close> is its number of milliseconds (\<^verbatim>\<open>getTime()\<close>), an
  \<^verbatim>\<open>ObjectId\<close> is a natural number.  A document field that is \<^verbatim>\<open>null\<close>
  and one that is missing are both \<open>None\<close>: the handlers only test such fields for
  truthiness.
\<close>

datatype json =
    JNull
  | JBool bool
  | JNum int
  | JStr string
  | JArr "json list"
  | JObj "(string \<times> json) list"

text \<open>The name zod gives to the type of a value it did not expect.\<close>

fun received :: "json \<Rightarrow> string" where
  "received JNull = ''null''"
| "received (JBool b) = ''boolean''"
| "received (JNum n) = ''number''"
| "received (JStr s) = ''string''"
| "received (JArr xs) = ''array''"
| "received (JObj kvs) = ''object''"

text \<open>JavaScript truthiness of a parsed JSON value (\<^verbatim>\<open>!x\<close> is its negation).\<close>

fun truthy :: "json \<Rightarrow> bool" where
  "truthy JNull = False"
| "truthy (JBool b) = b"
| "truthy (JNum n) = (n \<noteq> 0)"
| "truthy (JStr s) = (s \<noteq> [])"
| "truthy (JArr xs) = True"
| "truthy (JObj kvs) = True"

subsection \<open>Characters and strings\<close>

definition lower_chars :: string where
  "lower_chars = ''abcdefghijklmnopqrstuvwxyz''"

definition upper_chars :: string where
  "upper_chars = ''ABCDEFGHIJKLMNOPQRSTUVWXYZ''"

definition digit_chars :: string where
  "digit_chars = ''0123456789''"

definition special_chars :: string where
  "special_chars = ''@$!%*?&''"

definition latin1_upper :: string where
  "latin1_upper =
     [CHR 0xC0, CHR 0xC1, CHR 0xC2, CHR 0xC3, CHR 0xC4, CHR 0xC5, CHR 0xC6, CHR 0xC7,
      CHR 0xC8, CHR 0xC9, CHR 0xCA, CHR 0xCB, CHR 0xCC, CHR 0xCD, CHR 0xCE, CHR 0xCF,
      CHR 0xD0, CHR 0xD1, CHR 0xD2, CHR 0xD3, CHR 0xD4, CHR 0xD5, CHR 0xD6,
      CHR 0xD8, CHR 0xD9, CHR 0xDA, CHR 0xDB, CHR 0xDC, CHR 0xDD, CHR 0xDE]"

definition latin1_lower :: string where
  "latin1_lower =
     [CHR 0xE0, CHR 0xE1, CHR 0xE2, CHR 0xE3, CHR 0xE4, CHR 0xE5, CHR 0xE6, CHR 0xE7,
      CHR 0xE8, CHR 0xE9, CHR 0xEA, CHR 0xEB, CHR 0xEC, CHR 0xED, CHR 0xEE, CHR 0xEF,
      CHR 0xF0, CHR 0xF1, CHR 0xF2, CHR 0xF3, CHR 0xF4, CHR 0xF5, CHR 0xF6,
      CHR 0xF8, CHR 0xF9, CHR 0xFA, CHR 0xFB, CHR 0xFC, CHR 0xFD, CHR 0xFE]"

text \<open>\<^verbatim>\<open>String.prototype.toLowerCase\<close> on code units below 256: the ASCII capitals
  and the Latin-1 capitals \<open>0xC0..0xDE\<close> (without the multiplication sign \<open>0xD7\<close>)
  go to the unit 32 above, every other unit stays.\<close>

definition case_pairs :: "(char \<times> char) list" where
  "case_pairs = zip (upper_chars @ latin1_upper) (lower_chars @ latin1_lower)"

definition toLowerCase_char :: "char \<Rightarrow> char" where
  "toLowerCase_char c = (case map_of case_pairs c of None \<Rightarrow> c | Some l \<Rightarrow> l)"

definition toLowerCase :: "string \<Rightarrow> string" where
  "toLowerCase s = map toLowerCase_char s"

fun startsWith :: "string \<Rightarrow> string \<Rightarrow> bool" where
  "startsWith s [] = True"
| "startsWith [] (p # ps) = False"
| "startsWith (c # cs) (p # ps) = (c = p \<and> startsWith cs ps)"

text \<open>\<^verbatim>\<open>s.includes(sub)\<close>: \<open>sub\<close> occurs in \<open>s\<close> as a contiguous run.\<close>

fun includes_str :: "string \<Rightarrow> string \<Rightarrow> bool" where
  "includes_str [] sub = (sub = [])"
| "includes_str (c # cs) sub = (startsWith (c # cs) sub \<or> includes_str cs sub)"

text \<open>What \<^verbatim>\<open>.*\<close> can run over from the start of the input: the dot of a
  regular expression without the \<^verbatim>\<open>s\<close> flag stops at a line terminator.\<close>

definition first_line :: "string \<Rightarrow> string" where
  "first_line s = takeWhile (\<lambda>c. c \<noteq> CHR 0x0A \<and> c \<noteq> CHR 0x0D) s"

section \<open>The documents\<close>

record prefs =
  p_notifications :: "bool option"
  p_theme :: "string option"

record user =
  u_id :: nat
  u_email :: string
  u_password :: string
  u_name :: "string option"
  u_emailVerified :: bool
  u_createdAt :: int
  u_updatedAt :: int
  u_lastLogin :: "int option"
  u_loginAttempts :: "int option"
  u_lockUntil :: "int option"
  u_preferences :: "prefs option"

record session =
  s_token :: string
  s_userId :: nat
  s_createdAt :: int
  s_expiresAt :: int
  s_userAgent :: string
  s_ip :: string
  s_rememberMe :: bool

record db =
  users :: "user list"
  sessions :: "session list"

subsection \<open>Collection operations\<close>

text \<open>A collection is the list of its documents in natural order.  \<^verbatim>\<open>findOne\<close>
  returns the first match, \<^verbatim>\<open>updateOne\<close> and \<^verbatim>\<open>deleteOne\<close> act on the
  first match, \<^verbatim>\<open>deleteMany\<close> on all of them, \<^verbatim>\<open>insertOne\<close> appends.\<close>

definition findOne :: "('a \<Rightarrow> bool) \<Rightarrow> 'a list \<Rightarrow> 'a option" where
  "findOne P xs = find P xs"

fun updateOne :: "('a \<Rightarrow> bool) \<Rightarrow> ('a \<Rightarrow> 'a) \<Rightarrow> 'a list \<Rightarrow> 'a list" where
  "updateOne P f [] = []"
| "updateOne P f (x # xs) = (if P x then f x # xs else x # updateOne P f xs)"

fun deleteOne :: "('a \<Rightarrow> bool) \<Rightarrow> 'a list \<Rightarrow> 'a list" where
  "deleteOne P [] = []"
| "deleteOne P (x # xs) = (if P x then xs else x # deleteOne P xs)"

definition deleteMany :: "('a \<Rightarrow> bool) \<Rightarrow> 'a list \<Rightarrow> 'a list" where
  "deleteMany P xs = filter (\<lambda>x. \<not> P x) xs"

definition deletedCount :: "('a \<Rightarrow> bool) \<Rightarrow> 'a list \<Rightarrow> nat" where
  "deletedCount P xs = length (filter P xs)"

definition insertOne :: "'a \<Rightarrow> 'a list \<Rightarrow> 'a list" where
  "insertOne x xs = xs @ [x]"

section \<open>Environment, requests and responses\<close>

text \<open>
  What a handler reads from outside the two collections: the environment variable
  \<^verbatim>\<open>NODE_ENV\<close>, bcrypt, zod's e-mail test, the rate limiter of
  \<^verbatim>\<open>lib/rate-limit\<close> (a module outside the verified sources, so the outcome of
  \<^verbatim>\<open>limiter.check(limit, token)\<close> is a parameter: \<open>True\<close> when the call resolves),
  the clock, the token drawn by \<^verbatim>\<open>crypto.randomUUID()\<close>, the identifier MongoDB
  gives to an inserted document, and the store operation inside a transaction at which
  the store fails, if any.
\<close>

record env =
  NODE_ENV :: "string option"
  bcrypt_compare :: "string \<Rightarrow> string \<Rightarrow> bool"
  bcrypt_hash :: "string \<Rightarrow> string"
  zod_email :: "string \<Rightarrow> bool"
  limiter_check :: "nat \<Rightarrow> string \<Rightarrow> bool"
  now :: int
  randomUUID :: string
  insertedId :: nat
  tx_fault :: "nat option"

text \<open>A request: \<^verbatim>\<open>req.ip\<close>, the headers \<^verbatim>\<open>x-forwarded-for\<close> and
  \<^verbatim>\<open>user-agent\<close>, the value of the cookie \<^verbatim>\<open>session\<close>, and the body as
  \<^verbatim>\<open>req.json()\<close> parses it (\<open>None\<close> when it throws).\<close>

record request =
  q_ip :: "string option"
  q_forwardedFor :: "string option"
  q_userAgent :: "string option"
  q_cookie :: "string option"
  q_json :: "json option"

text \<open>The messages that interpolate a number keep the number.\<close>

datatype message =
    Text string
  | LockedFor int
  | LoggedOutAll nat

record user_view =
  v_id :: nat
  v_email :: string
  v_name :: "string option"
  v_emailVerified :: bool
  v_createdAt :: "int option"
  v_lastLogin :: "int option"
  v_preferences :: "prefs option"

text \<open>The cookie \<^verbatim>\<open>session\<close> a response sets; it is always \<^verbatim>\<open>httpOnly\<close>,
  \<^verbatim>\<open>sameSite: 'lax'\<close>, \<^verbatim>\<open>path: '/'\<close>.\<close>

record cookie =
  c_value :: string
  c_secure :: bool
  c_maxAge :: nat

type_synonym issue = "string option \<times> string"

record response =
  r_status :: nat
  r_code :: string
  r_message :: "message option"
  r_errors :: "issue list"
  r_attemptsRemaining :: "int option"
  r_lockUntil :: "int option"
  r_userId :: "nat option"
  r_user :: "user_view option"
  r_sessionsDeleted :: "nat option"
  r_cookie :: "cookie option"

definition json_response :: "nat \<Rightarrow> string \<Rightarrow> string \<Rightarrow> response" where
  "json_response st cd msg =
     \<lparr> r_status = st, r_code = cd, r_message = Some (Text msg), r_errors = [],
       r_attemptsRemaining = None, r_lockUntil = None, r_userId = None, r_user = None,
       r_sessionsDeleted = None, r_cookie = None \<rparr>"

definition client_ip :: "request \<Rightarrow> string" where
  "client_ip req =
     (case q_ip req of
        Some a \<Rightarrow> a
      | None \<Rightarrow> (case q_forwardedFor req of Some h \<Rightarrow> h | None \<Rightarrow> ''unknown''))"

text \<open>The issue zod raises for a missing field or a value of the wrong type.  The
  wording is the library's, not the repository's; the handlers pass it on unread.\<close>

definition invalid_type :: "string \<Rightarrow> string \<Rightarrow> json option \<Rightarrow> issue" where
  "invalid_type field expected v =
     (Some field,
      case v of
        None \<Rightarrow> ''Required''
      | Some j \<Rightarrow> ''Expected '' @ expected @ '', received '' @ received j)"

definition validation_failed :: "issue list \<Rightarrow> response" where
  "validation_failed es = (json_response 400 ''VALIDATION_ERROR'' ''Validation failed'')\<lparr> r_errors := es \<rparr>"

definition internal_error :: "string \<Rightarrow> response" where
  "internal_error msg = json_response 500 ''INTERNAL_ERROR'' msg"

section \<open>Login\<close>

subsection \<open>The schema of the login body\<close>

record login_data =
  ld_email :: string
  ld_password :: string
  ld_rememberMe :: bool

definition loginSchema_email :: "env \<Rightarrow> json option \<Rightarrow> issue list + string" where
  "loginSchema_email env v =
     (case v of
        Some (JStr s) \<Rightarrow>
          if zod_email env s then Inr (toLowerCase s)
          else Inl [(Some ''email'', ''Invalid email format'')]
      | _ \<Rightarrow> Inl [invalid_type ''email'' ''string'' v])"

definition loginSchema_password :: "json option \<Rightarrow> issue list + string" where
  "loginSchema_password v =
     (case v of
        Some (JStr s) \<Rightarrow>
          if length s < 1 then Inl [(Some ''password'', ''Password is required'')] else Inr s
      | _ \<Rightarrow> Inl [invalid_type ''password'' ''string'' v])"

definition loginSchema_rememberMe :: "json option \<Rightarrow> issue list + bool" where
  "loginSchema_rememberMe v =
     (case v of
        None \<Rightarrow> Inr False
      | Some (JBool b) \<Rightarrow> Inr b
      | _ \<Rightarrow> Inl [invalid_type ''rememberMe'' ''boolean'' v])"

definition issues_of :: "issue list + 'a \<Rightarrow> issue list" where
  "issues_of r = (case r of Inl es \<Rightarrow> es | Inr x \<Rightarrow> [])"

text \<open>\<^verbatim>\<open>loginSchema.safeParse(body)\<close>: the issues of all three fields, in the order
  of the schema, or the parsed record.\<close>

definition loginSchema :: "env \<Rightarrow> json \<Rightarrow> issue list + login_data" where
  "loginSchema env body =
     (case body of
        JObj kvs \<Rightarrow>
          (let e = loginSchema_email env (map_of kvs ''email'');
               p = loginSchema_password (map_of kvs ''password'');
               r = loginSchema_rememberMe (map_of kvs ''rememberMe'')
           in case (e, p, r) of
                (Inr e', Inr p', Inr r') \<Rightarrow>
                  Inr \<lparr> ld_email = e', ld_password = p', ld_rememberMe = r' \<rparr>
              | _ \<Rightarrow> Inl (issues_of e @ issues_of p @ issues_of r))
      | _ \<Rightarrow> Inl [(None, ''Expected object, received '' @ received body)])"

subsection \<open>The handler\<close>

definition MAX_LOGIN_ATTEMPTS :: int where
  "MAX_LOGIN_ATTEMPTS = 5"

definition LOCKOUT_DURATION :: int where
  "LOCKOUT_DURATION = 30 * 60 * 1000"

text \<open>\<^verbatim>\<open>user.loginAttempts || 0\<close>\<close>

definition attempts_read :: "user \<Rightarrow> int" where
  "attempts_read u = (case u_loginAttempts u of None \<Rightarrow> 0 | Some n \<Rightarrow> n)"

text \<open>\<^verbatim>\<open>user.lockUntil && user.lockUntil > now\<close>\<close>

definition is_locked :: "user \<Rightarrow> int \<Rightarrow> bool" where
  "is_locked u t = (case u_lockUntil u of None \<Rightarrow> False | Some l \<Rightarrow> l > t)"

text \<open>\<^verbatim>\<open>Math.ceil((lockUntil - now) / (1000 * 60))\<close>, on integers.\<close>

definition remainingTime :: "int \<Rightarrow> int \<Rightarrow> int" where
  "remainingTime l t = - ((t - l) div (1000 * 60))"

text \<open>The \<^verbatim>\<open>$set\<close> of a failed verification: \<^verbatim>\<open>updateData\<close> holds
  \<^verbatim>\<open>loginAttempts\<close> and \<^verbatim>\<open>updatedAt\<close>, and \<^verbatim>\<open>lockUntil\<close> once the
  new count reaches the maximum.\<close>

definition failed_update :: "int \<Rightarrow> int \<Rightarrow> user \<Rightarrow> user" where
  "failed_update n t u =
     (if n \<ge> MAX_LOGIN_ATTEMPTS
      then u\<lparr> u_loginAttempts := Some n, u_updatedAt := t, u_lockUntil := Some (t + LOCKOUT_DURATION) \<rparr>
      else u\<lparr> u_loginAttempts := Some n, u_updatedAt := t \<rparr>)"

text \<open>The update of a successful login: \<^verbatim>\<open>$set\<close> of \<^verbatim>\<open>lastLogin\<close> and
  \<^verbatim>\<open>updatedAt\<close>, \<^verbatim>\<open>$unset\<close> of \<^verbatim>\<open>loginAttempts\<close> and
  \<^verbatim>\<open>lockUntil\<close>.\<close>

definition success_update :: "int \<Rightarrow> user \<Rightarrow> user" where
  "success_update t u =
     u\<lparr> u_lastLogin := Some t, u_updatedAt := t, u_loginAttempts := None, u_lockUntil := None \<rparr>"

text \<open>The response of a locked account: status 423, the minutes that remain in the
  message, and \<^verbatim>\<open>lockUntil\<close>.\<close>

definition account_locked :: "int option \<Rightarrow> int \<Rightarrow> response" where
  "account_locked lu t =
     (json_response 423 ''ACCOUNT_LOCKED'' [])
       \<lparr> r_message := (case lu of None \<Rightarrow> None | Some l \<Rightarrow> Some (LockedFor (remainingTime l t))),
         r_lockUntil := lu \<rparr>"

definition login_view :: "user \<Rightarrow> user_view" where
  "login_view u =
     \<lparr> v_id = u_id u, v_email = u_email u, v_name = u_name u,
       v_emailVerified = u_emailVerified u, v_createdAt = None, v_lastLogin = None,
       v_preferences = None \<rparr>"

text \<open>The handler from the document that \<^verbatim>\<open>findOne({ email })\<close> returned on:
  the lock test, the password test, and the writes, which act on the store as it is
  when they run.\<close>

definition login_with_user ::
  "env \<Rightarrow> request \<Rightarrow> login_data \<Rightarrow> user option \<Rightarrow> db \<Rightarrow> response \<times> db" where
  "login_with_user env req data found d =
     (case found of
        None \<Rightarrow> (json_response 401 ''INVALID_CREDENTIALS'' ''Invalid email or password'', d)
      | Some u \<Rightarrow>
          if is_locked u (now env) then
            (account_locked (u_lockUntil u) (now env), d)
          else if \<not> bcrypt_compare env (ld_password data) (u_password u) then
            (let loginAttempts = attempts_read u + 1 in
             ((json_response 401 ''INVALID_CREDENTIALS''
                 (if loginAttempts \<ge> MAX_LOGIN_ATTEMPTS
                  then ''Too many failed attempts. Account has been locked.''
                  else ''Invalid email or password''))
                \<lparr> r_attemptsRemaining := Some (max 0 (MAX_LOGIN_ATTEMPTS - loginAttempts)) \<rparr>,
              d\<lparr> users := updateOne (\<lambda>v. u_id v = u_id u)
                             (failed_update loginAttempts (now env)) (users d) \<rparr>))
          else
            (let d1 = d\<lparr> users := updateOne (\<lambda>v. u_id v = u_id u)
                                   (success_update (now env)) (users d) \<rparr>;
                 sessionExpiry =
                   (if ld_rememberMe data then now env + 30 * 24 * 60 * 60 * 1000
                    else now env + 24 * 60 * 60 * 1000);
                 d2 = d1\<lparr> sessions := insertOne
                        \<lparr> s_token = randomUUID env, s_userId = u_id u, s_createdAt = now env,
                          s_expiresAt = sessionExpiry,
                          s_userAgent = (case q_userAgent req of None \<Rightarrow> ''unknown''
                                         | Some a \<Rightarrow> if a = [] then ''unknown'' else a),
                          s_ip = client_ip req, s_rememberMe = ld_rememberMe data \<rparr>
                        (sessions d1) \<rparr>
             in ((json_response 200 ''LOGIN_SUCCESS'' ''Login successful'')
                   \<lparr> r_user := Some (login_view u),
                     r_cookie := Some \<lparr> c_value = randomUUID env,
                                        c_secure = (NODE_ENV env = Some ''production''),
                                        c_maxAge = (if ld_rememberMe data then 30 * 24 * 60 * 60
                                                    else 24 * 60 * 60) \<rparr> \<rparr>,
                 d2)))"

text \<open>\<^verbatim>\<open>POST /api/login\<close>.\<close>

definition login :: "env \<Rightarrow> request \<Rightarrow> db \<Rightarrow> response \<times> db" where
  "login env req d =
     (if \<not> limiter_check env 10 (client_ip req) then
        (json_response 429 ''RATE_LIMIT_EXCEEDED''
           ''Too many login attempts. Please try again later.'', d)
      else case q_json req of
        None \<Rightarrow> (json_response 400 ''INVALID_JSON'' ''Invalid JSON format'', d)
      | Some body \<Rightarrow>
          (case loginSchema env body of
             Inl es \<Rightarrow> (validation_failed es, d)
           | Inr data \<Rightarrow>
               login_with_user env req data
                 (findOne (\<lambda>u. u_email u = ld_email data) (users d)) d))"

section \<open>Password rules\<close>

text \<open>The three checks that \<^verbatim>\<open>registerSchema.password\<close> and
  \<^verbatim>\<open>updateProfileSchema.newPassword\<close> both spell out: \<^verbatim>\<open>min(8)\<close>,
  \<^verbatim>\<open>max(128)\<close> and the regular expression
  \<^verbatim>\<open>/^(?=.*[a-z])(?=.*[A-Z])(?=.*\d)(?=.*[@$!%*?&])[A-Za-z\d@$!%*?&]/\<close>.
  The expression is anchored at the start only: four look-aheads over the first line, then
  one character of the class.\<close>

definition password_regex :: "string \<Rightarrow> bool" where
  "password_regex p =
     (list_ex (\<lambda>c. c \<in> set lower_chars) (first_line p) \<and>
      list_ex (\<lambda>c. c \<in> set upper_chars) (first_line p) \<and>
      list_ex (\<lambda>c. c \<in> set digit_chars) (first_line p) \<and>
      list_ex (\<lambda>c. c \<in> set special_chars) (first_line p) \<and>
      (case p of
         [] \<Rightarrow> False
       | c # cs \<Rightarrow> c \<in> set (upper_chars @ lower_chars @ digit_chars @ special_chars)))"

definition password_checks :: "string \<Rightarrow> string list" where
  "password_checks p =
     (if length p < 8 then [''Password must be at least 8 characters''] else []) @
     (if length p > 128 then [''Password too long''] else []) @
     (if password_regex p then []
      else [''Password must contain at least one uppercase letter, one lowercase letter, one number, and one special character''])"

text \<open>\<^verbatim>\<open>passwordSchema\<close> of \<^verbatim>\<open>lib/validation.ts\<close>: length, then five
  refinements.\<close>

definition commonPasswords :: "string list" where
  "commonPasswords =
     [''password'', ''12345678'', ''qwerty123'', ''admin123'', ''letmein'', ''welcome123'']"

definition passwordSchema_issues :: "string \<Rightarrow> string list" where
  "passwordSchema_issues p =
     (if length p < 8 then [''Password must be at least 8 characters''] else []) @
     (if length p > 128 then [''Password too long''] else []) @
     (if list_ex (\<lambda>c. c \<in> set lower_chars) p then []
      else [''Password must contain at least one lowercase letter'']) @
     (if list_ex (\<lambda>c. c \<in> set upper_chars) p then []
      else [''Password must contain at least one uppercase letter'']) @
     (if list_ex (\<lambda>c. c \<in> set digit_chars) p then []
      else [''Password must contain at least one number'']) @
     (if list_ex (\<lambda>c. c \<in> set special_chars) p then []
      else [''Password must contain at least one special character (@$!%*?&)'']) @
     (if \<not> list_ex (\<lambda>common. includes_str (toLowerCase p) common) commonPasswords then []
      else [''Password contains common patterns and is not secure''])"

definition passwordSchema_accepts :: "string \<Rightarrow> bool" where
  "passwordSchema_accepts p = (passwordSchema_issues p = [])"

text \<open>The rule of the specification, in its words: length in \<open>[8,128]\<close>; a lowercase
  letter, an uppercase letter, a digit and one of \<^verbatim>\<open>@$!%*?&\<close>; no entry of the
  denylist as a substring, compared without regard to case.\<close>

definition policy_accepts :: "string \<Rightarrow> bool" where
  "policy_accepts p =
     (8 \<le> length p \<and> length p \<le> 128 \<and>
      list_ex (\<lambda>c. c \<in> set lower_chars) p \<and>
      list_ex (\<lambda>c. c \<in> set upper_chars) p \<and>
      list_ex (\<lambda>c. c \<in> set digit_chars) p \<and>
      list_ex (\<lambda>c. c \<in> set special_chars) p \<and>
      list_all (\<lambda>w. \<not> includes_str (toLowerCase p) (toLowerCase w)) commonPasswords)"

section \<open>Registration\<close>

record register_data =
  rd_email :: string
  rd_password :: string

definition registerSchema_email :: "env \<Rightarrow> json option \<Rightarrow> issue list + string" where
  "registerSchema_email env v =
     (case v of
        Some (JStr s) \<Rightarrow>
          (let es = (if zod_email env s then [] else [(Some ''email'', ''Invalid email format'')]) @
                    (if length (toLowerCase s) > 255 then [(Some ''email'', ''Email too long'')]
                     else [])
           in if es = [] then Inr (toLowerCase s) else Inl es)
      | _ \<Rightarrow> Inl [invalid_type ''email'' ''string'' v])"

definition registerSchema_password :: "json option \<Rightarrow> issue list + string" where
  "registerSchema_password v =
     (case v of
        Some (JStr s) \<Rightarrow>
          if password_checks s = [] then Inr s
          else Inl (map (Pair (Some ''password'')) (password_checks s))
      | _ \<Rightarrow> Inl [invalid_type ''password'' ''string'' v])"

definition registerSchema :: "env \<Rightarrow> json \<Rightarrow> issue list + register_data" where
  "registerSchema env body =
     (case body of
        JObj kvs \<Rightarrow>
          (let e = registerSchema_email env (map_of kvs ''email'');
               p = registerSchema_password (map_of kvs ''password'')
           in case (e, p) of
                (Inr e', Inr p') \<Rightarrow> Inr \<lparr> rd_email = e', rd_password = p' \<rparr>
              | _ \<Rightarrow> Inl (issues_of e @ issues_of p))
      | _ \<Rightarrow> Inl [(None, ''Expected object, received '' @ received body)])"

definition newUser :: "env \<Rightarrow> register_data \<Rightarrow> user" where
  "newUser env data =
     \<lparr> u_id = insertedId env, u_email = rd_email data,
       u_password = bcrypt_hash env (rd_password data), u_name = None,
       u_emailVerified = False, u_createdAt = now env, u_updatedAt = now env,
       u_lastLogin = None, u_loginAttempts = Some 0, u_lockUntil = None,
       u_preferences = Some \<lparr> p_notifications = Some True, p_theme = Some ''light'' \<rparr> \<rparr>"

text \<open>\<^verbatim>\<open>POST /api/register\<close>.\<close>

definition register :: "env \<Rightarrow> request \<Rightarrow> db \<Rightarrow> response \<times> db" where
  "register env req d =
     (if \<not> limiter_check env 5 (client_ip req) then
        (json_response 429 ''RATE_LIMIT_EXCEEDED''
           ''Too many registration attempts. Please try again later.'', d)
      else case q_json req of
        None \<Rightarrow> (json_response 400 ''INVALID_JSON'' ''Invalid JSON format'', d)
      | Some body \<Rightarrow>
          (case registerSchema env body of
             Inl es \<Rightarrow> (validation_failed es, d)
           | Inr data \<Rightarrow>
               (case findOne (\<lambda>u. u_email u = rd_email data) (users d) of
                  Some existingUser \<Rightarrow>
                    (json_response 409 ''USER_EXISTS''
                       (if NODE_ENV env = Some ''development''
                        then ''An account with this email already exists''
                        else ''If an account with this email exists, you will receive a confirmation email''),
                     d)
                | None \<Rightarrow>
                    ((json_response 201 ''REGISTRATION_SUCCESS''
                        ''Registration successful! Please check your email for verification.'')
                       \<lparr> r_userId := Some (insertedId env) \<rparr>,
                     d\<lparr> users := insertOne (newUser env data) (users d) \<rparr>))))"

section \<open>Logout\<close>

text \<open>\<^verbatim>\<open>!sessionToken\<close>: the cookie is missing or empty.\<close>

definition session_cookie :: "request \<Rightarrow> string option" where
  "session_cookie req =
     (case q_cookie req of None \<Rightarrow> None | Some t \<Rightarrow> if t = [] then None else Some t)"

definition clear_cookie :: "env \<Rightarrow> cookie" where
  "clear_cookie env =
     \<lparr> c_value = [], c_secure = (NODE_ENV env = Some ''production''), c_maxAge = 0 \<rparr>"

definition logout_success :: "env \<Rightarrow> response" where
  "logout_success env =
     (json_response 200 ''LOGOUT_SUCCESS'' ''Logout successful'')
       \<lparr> r_cookie := Some (clear_cookie env) \<rparr>"

text \<open>\<^verbatim>\<open>POST /api/logout\<close>.\<close>

definition logout :: "env \<Rightarrow> request \<Rightarrow> db \<Rightarrow> response \<times> db" where
  "logout env req d =
     (case session_cookie req of
        None \<Rightarrow> (logout_success env, d)
      | Some sessionToken \<Rightarrow>
          (case findOne (\<lambda>s. s_token s = sessionToken) (sessions d) of
             Some s \<Rightarrow>
               (logout_success env,
                d\<lparr> sessions := deleteOne (\<lambda>s. s_token s = sessionToken) (sessions d) \<rparr>)
           | None \<Rightarrow> (logout_success env, d)))"

text \<open>\<^verbatim>\<open>DELETE /api/logout\<close>: log out of every device.\<close>

definition logout_all :: "env \<Rightarrow> request \<Rightarrow> db \<Rightarrow> response \<times> db" where
  "logout_all env req d =
     (case session_cookie req of
        None \<Rightarrow> (json_response 400 ''NO_SESSION'' ''No active session found'', d)
      | Some sessionToken \<Rightarrow>
          (case findOne (\<lambda>s. s_token s = sessionToken) (sessions d) of
             None \<Rightarrow> (json_response 401 ''INVALID_SESSION'' ''Invalid session'', d)
           | Some currentSession \<Rightarrow>
               (let n = deletedCount (\<lambda>s. s_userId s = s_userId currentSession) (sessions d) in
                ((json_response 200 ''LOGOUT_ALL_SUCCESS'' [])
                   \<lparr> r_message := Some (LoggedOutAll n), r_sessionsDeleted := Some n,
                     r_cookie := Some (clear_cookie env) \<rparr>,
                 d\<lparr> sessions := deleteMany (\<lambda>s. s_userId s = s_userId currentSession)
                                    (sessions d) \<rparr>))))"

section \<open>Profile\<close>

subsection \<open>Resolving the session\<close>

text \<open>\<^verbatim>\<open>getUserFromSession\<close> at clock reading \<open>t\<close>: the session with this token
  whose \<^verbatim>\<open>expiresAt\<close> is greater than \<open>t\<close>, and the user document it names
  (\<open>None\<close> when that user is gone).  The projection drops the password; no handler
  reads it from this document.\<close>

definition getUserFromSession :: "int \<Rightarrow> string \<Rightarrow> db \<Rightarrow> (user option \<times> session) option" where
  "getUserFromSession t sessionToken d =
     (case findOne (\<lambda>s. s_token s = sessionToken \<and> s_expiresAt s > t) (sessions d) of
        None \<Rightarrow> None
      | Some s \<Rightarrow> Some (findOne (\<lambda>u. u_id u = s_userId s) (users d), s))"

definition default_prefs :: prefs where
  "default_prefs = \<lparr> p_notifications = Some True, p_theme = Some ''light'' \<rparr>"

definition profile_view :: "user \<Rightarrow> user_view" where
  "profile_view u =
     \<lparr> v_id = u_id u, v_email = u_email u, v_name = u_name u,
       v_emailVerified = u_emailVerified u, v_createdAt = Some (u_createdAt u),
       v_lastLogin = u_lastLogin u,
       v_preferences = Some (case u_preferences u of None \<Rightarrow> default_prefs | Some p \<Rightarrow> p) \<rparr>"

definition not_authenticated :: response where
  "not_authenticated = json_response 401 ''NOT_AUTHENTICATED'' ''Authentication required''"

definition invalid_session :: response where
  "invalid_session = json_response 401 ''INVALID_SESSION'' ''Invalid or expired session''"

definition user_not_found :: response where
  "user_not_found = json_response 404 ''USER_NOT_FOUND'' ''User not found''"

text \<open>\<^verbatim>\<open>GET /api/profile\<close>.  Reading \<^verbatim>\<open>user._id\<close> of a missing user throws,
  and the handler answers 500.\<close>

definition profile_get :: "env \<Rightarrow> request \<Rightarrow> db \<Rightarrow> response \<times> db" where
  "profile_get env req d =
     (case session_cookie req of
        None \<Rightarrow> (not_authenticated, d)
      | Some sessionToken \<Rightarrow>
          (case getUserFromSession (now env) sessionToken d of
             None \<Rightarrow> (invalid_session, d)
           | Some (None, s) \<Rightarrow> (internal_error ''Internal server error'', d)
           | Some (Some u, s) \<Rightarrow>
               ((json_response 200 ''PROFILE_RETRIEVED'' [])
                  \<lparr> r_message := None, r_user := Some (profile_view u) \<rparr>, d)))"

subsection \<open>The schema of a profile update\<close>

record profile_patch =
  pp_name :: "string option"
  pp_currentPassword :: "string option"
  pp_newPassword :: "string option"
  pp_preferences :: "prefs option"

text \<open>An optional string field with its checks (the messages of the failed ones).\<close>

definition zod_optional_string ::
  "string \<Rightarrow> (string \<Rightarrow> string list) \<Rightarrow> json option \<Rightarrow> issue list + string option" where
  "zod_optional_string field checks v =
     (case v of
        None \<Rightarrow> Inr None
      | Some (JStr s) \<Rightarrow>
          if checks s = [] then Inr (Some s) else Inl (map (Pair (Some field)) (checks s))
      | _ \<Rightarrow> Inl [invalid_type field ''string'' v])"

definition name_checks :: "string \<Rightarrow> string list" where
  "name_checks n =
     (if length n < 2 then [''Name must be at least 2 characters''] else []) @
     (if length n > 100 then [''Name too long''] else [])"

definition updateProfileSchema_notifications :: "json option \<Rightarrow> issue list + bool option" where
  "updateProfileSchema_notifications v =
     (case v of
        None \<Rightarrow> Inr None
      | Some (JBool b) \<Rightarrow> Inr (Some b)
      | _ \<Rightarrow> Inl [invalid_type ''preferences.notifications'' ''boolean'' v])"

definition updateProfileSchema_theme :: "json option \<Rightarrow> issue list + string option" where
  "updateProfileSchema_theme v =
     (case v of
        None \<Rightarrow> Inr None
      | Some (JStr s) \<Rightarrow>
          if s = ''light'' \<or> s = ''dark'' then Inr (Some s)
          else Inl [(Some ''preferences.theme'', ''Invalid enum value'')]
      | _ \<Rightarrow> Inl [invalid_type ''preferences.theme'' ''string'' v])"

definition updateProfileSchema_preferences :: "json option \<Rightarrow> issue list + prefs option" where
  "updateProfileSchema_preferences v =
     (case v of
        None \<Rightarrow> Inr None
      | Some (JObj kvs) \<Rightarrow>
          (let n = updateProfileSchema_notifications (map_of kvs ''notifications'');
               t = updateProfileSchema_theme (map_of kvs ''theme'')
           in case (n, t) of
                (Inr n', Inr t') \<Rightarrow> Inr (Some \<lparr> p_notifications = n', p_theme = t' \<rparr>)
              | _ \<Rightarrow> Inl (issues_of n @ issues_of t))
      | _ \<Rightarrow> Inl [invalid_type ''preferences'' ''object'' v])"

definition updateProfileSchema :: "json \<Rightarrow> issue list + profile_patch" where
  "updateProfileSchema body =
     (case body of
        JObj kvs \<Rightarrow>
          (let n = zod_optional_string ''name'' name_checks (map_of kvs ''name'');
               c = zod_optional_string ''currentPassword'' (\<lambda>s. []) (map_of kvs ''currentPassword'');
               p = zod_optional_string ''newPassword'' password_checks (map_of kvs ''newPassword'');
               r = updateProfileSchema_preferences (map_of kvs ''preferences'')
           in case (n, c, p, r) of
                (Inr n', Inr c', Inr p', Inr r') \<Rightarrow>
                  Inr \<lparr> pp_name = n', pp_currentPassword = c', pp_newPassword = p',
                        pp_preferences = r' \<rparr>
              | _ \<Rightarrow> Inl (issues_of n @ issues_of c @ issues_of p @ issues_of r))
      | _ \<Rightarrow> Inl [(None, ''Expected object, received '' @ received body)])"

subsection \<open>Updating the profile\<close>

text \<open>\<^verbatim>\<open>{ ...user.preferences, ...preferences }\<close>\<close>

definition merge_prefs :: "prefs option \<Rightarrow> prefs \<Rightarrow> prefs" where
  "merge_prefs old new =
     (let base = (case old of None \<Rightarrow> \<lparr> p_notifications = None, p_theme = None \<rparr> | Some p \<Rightarrow> p)
      in \<lparr> p_notifications =
             (case p_notifications new of None \<Rightarrow> p_notifications base | Some b \<Rightarrow> Some b),
           p_theme = (case p_theme new of None \<Rightarrow> p_theme base | Some t \<Rightarrow> Some t) \<rparr>)"

text \<open>\<^verbatim>\<open>updateData\<close> as the change its \<^verbatim>\<open>$set\<close> makes to a document:
  \<^verbatim>\<open>updatedAt\<close> always, \<^verbatim>\<open>name\<close> and \<^verbatim>\<open>preferences\<close> when the body has
  them (the preferences merged over those of the document read with the session), and
  the new digest when the password changes.\<close>

definition updateData :: "env \<Rightarrow> user \<Rightarrow> profile_patch \<Rightarrow> string option \<Rightarrow> user \<Rightarrow> user" where
  "updateData env u patch hashedNewPassword v =
     (let v1 = v\<lparr> u_updatedAt := now env \<rparr>;
          v2 = (case pp_name patch of None \<Rightarrow> v1 | Some n \<Rightarrow> v1\<lparr> u_name := Some n \<rparr>);
          v3 = (case pp_preferences patch of
                  None \<Rightarrow> v2
                | Some p \<Rightarrow> v2\<lparr> u_preferences := Some (merge_prefs (u_preferences u) p) \<rparr>)
      in case hashedNewPassword of None \<Rightarrow> v3 | Some h \<Rightarrow> v3\<lparr> u_password := h \<rparr>)"

text \<open>The last steps of the update: \<^verbatim>\<open>updateOne\<close>, the test of
  \<^verbatim>\<open>matchedCount\<close>, and the document read back for the response.\<close>

definition update_user :: "nat \<Rightarrow> (user \<Rightarrow> user) \<Rightarrow> db \<Rightarrow> response \<times> db" where
  "update_user uid f d =
     (if \<not> list_ex (\<lambda>v. u_id v = uid) (users d) then (user_not_found, d)
      else
        (let d' = d\<lparr> users := updateOne (\<lambda>v. u_id v = uid) f (users d) \<rparr> in
         case findOne (\<lambda>v. u_id v = uid) (users d') of
           None \<Rightarrow> (internal_error ''Internal server error'', d')
         | Some updatedUser \<Rightarrow>
             ((json_response 200 ''PROFILE_UPDATED'' ''Profile updated successfully'')
                \<lparr> r_user := Some (profile_view updatedUser) \<rparr>, d')))"

text \<open>The update for a user that the session resolved to.\<close>

definition patch_user ::
  "env \<Rightarrow> string \<Rightarrow> profile_patch \<Rightarrow> user \<Rightarrow> db \<Rightarrow> response \<times> db" where
  "patch_user env sessionToken patch u d =
     (case pp_newPassword patch of
        None \<Rightarrow> update_user (u_id u) (updateData env u patch None) d
      | Some newPassword \<Rightarrow>
          (case pp_currentPassword patch of
             None \<Rightarrow>
               (json_response 400 ''CURRENT_PASSWORD_REQUIRED''
                  ''Current password is required to change password'', d)
           | Some currentPassword \<Rightarrow>
               if currentPassword = [] then
                 (json_response 400 ''CURRENT_PASSWORD_REQUIRED''
                    ''Current password is required to change password'', d)
               else
                 (case findOne (\<lambda>v. u_id v = u_id u) (users d) of
                    None \<Rightarrow> (user_not_found, d)
                  | Some userWithPassword \<Rightarrow>
                      if \<not> bcrypt_compare env currentPassword (u_password userWithPassword) then
                        (json_response 400 ''INVALID_CURRENT_PASSWORD''
                           ''Current password is incorrect'', d)
                      else
                        update_user (u_id u)
                          (updateData env u patch (Some (bcrypt_hash env newPassword)))
                          (d\<lparr> sessions := deleteMany
                                 (\<lambda>s. s_userId s = u_id u \<and> s_token s \<noteq> sessionToken)
                                 (sessions d) \<rparr>))))"

text \<open>When the session's user is gone, the first read of a field of \<^verbatim>\<open>user\<close>
  throws: in the preferences merge, or else in the lookup by \<^verbatim>\<open>user._id\<close>; only the
  test for a missing current password comes before the latter.\<close>

definition patch_missing_user :: "profile_patch \<Rightarrow> response" where
  "patch_missing_user patch =
     (if pp_preferences patch \<noteq> None then internal_error ''Internal server error''
      else if pp_newPassword patch \<noteq> None \<and>
              (pp_currentPassword patch = None \<or> pp_currentPassword patch = Some [])
      then json_response 400 ''CURRENT_PASSWORD_REQUIRED''
             ''Current password is required to change password''
      else internal_error ''Internal server error'')"

text \<open>\<^verbatim>\<open>PATCH /api/profile\<close>.\<close>

definition profile_update :: "env \<Rightarrow> request \<Rightarrow> db \<Rightarrow> response \<times> db" where
  "profile_update env req d =
     (case session_cookie req of
        None \<Rightarrow> (not_authenticated, d)
      | Some sessionToken \<Rightarrow>
          (case getUserFromSession (now env) sessionToken d of
             None \<Rightarrow> (invalid_session, d)
           | Some (found, s) \<Rightarrow>
               (case q_json req of
                  None \<Rightarrow> (json_response 400 ''INVALID_JSON'' ''Invalid JSON format'', d)
                | Some body \<Rightarrow>
                    (case updateProfileSchema body of
                       Inl es \<Rightarrow> (validation_failed es, d)
                     | Inr patch \<Rightarrow>
                         (case found of
                            None \<Rightarrow> (patch_missing_user patch, d)
                          | Some u \<Rightarrow> patch_user env sessionToken patch u d)))))"

subsection \<open>Deleting the account\<close>

datatype store_error = StoreError

text \<open>\<^verbatim>\<open>session.withTransaction(callback)\<close> of the MongoDB driver, as the store
  documents it: the writes of the callback are committed together, and when the callback
  or the commit throws, none of them is applied and the error is thrown on.\<close>

definition withTransaction :: "(db \<Rightarrow> store_error + db) \<Rightarrow> db \<Rightarrow> (store_error + unit) \<times> db" where
  "withTransaction callback d =
     (case callback d of
        Inl e \<Rightarrow> (Inl e, d)
      | Inr d' \<Rightarrow> (Inr (), d'))"

text \<open>The callback of the account deletion: \<^verbatim>\<open>deleteMany\<close> on the sessions of the
  user, then \<^verbatim>\<open>deleteOne\<close> on the user.  \<open>fault\<close> names the step at which the
  store fails: \<open>0\<close> the first deletion, \<open>1\<close> the second one (the sessions are already
  deleted inside the transaction), \<open>2\<close> the commit.\<close>

definition delete_account_tx :: "nat option \<Rightarrow> nat \<Rightarrow> db \<Rightarrow> store_error + db" where
  "delete_account_tx fault uid d =
     (if fault = Some 0 then Inl StoreError
      else
        (let d1 = d\<lparr> sessions := deleteMany (\<lambda>s. s_userId s = uid) (sessions d) \<rparr> in
         if fault = Some 1 then Inl StoreError
         else
           (let d2 = d1\<lparr> users := deleteOne (\<lambda>v. u_id v = uid) (users d1) \<rparr> in
            if fault = Some 2 then Inl StoreError else Inr d2)))"

text \<open>\<^verbatim>\<open>const { password: confirmPassword } = body\<close>: only an object has the
  property.\<close>

definition confirmPassword :: "json \<Rightarrow> json option" where
  "confirmPassword body = (case body of JObj kvs \<Rightarrow> map_of kvs ''password'' | _ \<Rightarrow> None)"

text \<open>\<^verbatim>\<open>DELETE /api/profile\<close>.  Destructuring a \<^verbatim>\<open>null\<close> body throws, and so
  does \<^verbatim>\<open>bcrypt.compare\<close> on a confirmation that is not a string; both end in the
  handler's 500.\<close>

definition profile_delete :: "env \<Rightarrow> request \<Rightarrow> db \<Rightarrow> response \<times> db" where
  "profile_delete env req d =
     (case session_cookie req of
        None \<Rightarrow> (not_authenticated, d)
      | Some sessionToken \<Rightarrow>
          (case getUserFromSession (now env) sessionToken d of
             None \<Rightarrow> (invalid_session, d)
           | Some (found, s) \<Rightarrow>
               (case q_json req of
                  None \<Rightarrow> (json_response 400 ''INVALID_JSON'' ''Invalid JSON format'', d)
                | Some JNull \<Rightarrow> (internal_error ''Internal server error'', d)
                | Some body \<Rightarrow>
                    (case confirmPassword body of
                       None \<Rightarrow>
                         (json_response 400 ''PASSWORD_REQUIRED''
                            ''Password confirmation is required to delete account'', d)
                     | Some c \<Rightarrow>
                         if \<not> truthy c then
                           (json_response 400 ''PASSWORD_REQUIRED''
                              ''Password confirmation is required to delete account'', d)
                         else
                           (case found of
                              None \<Rightarrow> (internal_error ''Internal server error'', d)
                            | Some u \<Rightarrow>
                                (case findOne (\<lambda>v. u_id v = u_id u) (users d) of
                                   None \<Rightarrow> (user_not_found, d)
                                 | Some userWithPassword \<Rightarrow>
                                     (case c of
                                        JStr pw \<Rightarrow>
                                          if \<not> bcrypt_compare env pw (u_password userWithPassword)
                                          then (json_response 400 ''INVALID_PASSWORD''
                                                  ''Password is incorrect'', d)
                                          else
                                            (case withTransaction
                                                    (delete_account_tx (tx_fault env) (u_id u)) d of
                                               (Inl e, d') \<Rightarrow>
                                                 (internal_error ''Internal server error'', d')
                                             | (Inr ok, d') \<Rightarrow>
                                                 ((json_response 200 ''ACCOUNT_DELETED''
                                                     ''Account deleted successfully'')
                                                    \<lparr> r_cookie := Some (clear_cookie env) \<rparr>, d'))
                                      | _ \<Rightarrow> (internal_error ''Internal server error'', d))))))))"

section \<open>Runs and scenarios\<close>

text \<open>A login attempt against the account with e-mail \<open>e\<close> and digest \<open>pw\<close> that
  passes the rate limiter and the schema and carries a password that does not verify.\<close>

definition wrong_password_attempt :: "string \<Rightarrow> string \<Rightarrow> env \<times> request \<Rightarrow> bool" where
  "wrong_password_attempt e pw er =
     (case er of (env, req) \<Rightarrow>
        limiter_check env 10 (client_ip req) \<and>
        (case q_json req of
           None \<Rightarrow> False
         | Some body \<Rightarrow>
             (case loginSchema env body of
                Inl es \<Rightarrow> False
              | Inr data \<Rightarrow> ld_email data = e \<and> \<not> bcrypt_compare env (ld_password data) pw)))"

text \<open>The same with a password that verifies.\<close>

definition right_password_attempt :: "string \<Rightarrow> string \<Rightarrow> env \<times> request \<Rightarrow> bool" where
  "right_password_attempt e pw er =
     (case er of (env, req) \<Rightarrow>
        limiter_check env 10 (client_ip req) \<and>
        (case q_json req of
           None \<Rightarrow> False
         | Some body \<Rightarrow>
             (case loginSchema env body of
                Inl es \<Rightarrow> False
              | Inr data \<Rightarrow> ld_email data = e \<and> bcrypt_compare env (ld_password data) pw)))"

text \<open>Login requests handled one after the other.\<close>

fun login_seq :: "(env \<times> request) list \<Rightarrow> db \<Rightarrow> db" where
  "login_seq [] d = d"
| "login_seq (er # rs) d = login_seq rs (snd (login (fst er) (snd er) d))"

text \<open>The parsed body of a login request, when the request gets as far as the lookup.\<close>

definition login_body :: "env \<Rightarrow> request \<Rightarrow> login_data option" where
  "login_body env req =
     (if \<not> limiter_check env 10 (client_ip req) then None
      else case q_json req of
        None \<Rightarrow> None
      | Some body \<Rightarrow> (case loginSchema env body of Inl es \<Rightarrow> None | Inr data \<Rightarrow> Some data))"

text \<open>Concrete data: a toy digest (\<open>#\<close> in front of the password), an e-mail test
  that looks for \<open>@\<close>, a limiter that admits everything.\<close>

definition ex_env :: "int \<Rightarrow> env" where
  "ex_env t =
     \<lparr> NODE_ENV = Some ''production'', bcrypt_compare = (\<lambda>p h. h = CHR ''#'' # p),
       bcrypt_hash = (\<lambda>p. CHR ''#'' # p), zod_email = (\<lambda>s. CHR ''@'' \<in> set s),
       limiter_check = (\<lambda>n k. True), now = t, randomUUID = ''tok-1'', insertedId = 7,
       tx_fault = None \<rparr>"

definition ex_user :: "nat \<Rightarrow> string \<Rightarrow> int option \<Rightarrow> int option \<Rightarrow> user" where
  "ex_user i e attempts lock =
     \<lparr> u_id = i, u_email = e, u_password = ''#Abcdef1!'', u_name = None,
       u_emailVerified = False, u_createdAt = 0, u_updatedAt = 0, u_lastLogin = None,
       u_loginAttempts = attempts, u_lockUntil = lock, u_preferences = None \<rparr>"

definition ex_session :: "string \<Rightarrow> nat \<Rightarrow> int \<Rightarrow> session" where
  "ex_session tok i expires =
     \<lparr> s_token = tok, s_userId = i, s_createdAt = 0, s_expiresAt = expires,
       s_userAgent = ''unknown'', s_ip = ''10.0.0.1'', s_rememberMe = False \<rparr>"

definition ex_request :: "string option \<Rightarrow> json option \<Rightarrow> request" where
  "ex_request tok body =
     \<lparr> q_ip = Some ''10.0.0.1'', q_forwardedFor = None, q_userAgent = None,
       q_cookie = tok, q_json = body \<rparr>"

definition ex_credentials :: "string \<Rightarrow> string \<Rightarrow> json" where
  "ex_credentials e p = JObj [(''email'', JStr e), (''password'', JStr p)]"

definition ex_login :: "string \<Rightarrow> string \<Rightarrow> request" where
  "ex_login e p = ex_request None (Some (ex_credentials e p))"

text \<open>One account; and two accounts with three live sessions and an expired one.\<close>

definition ex_db :: "int option \<Rightarrow> int option \<Rightarrow> db" where
  "ex_db attempts lock = \<lparr> users = [ex_user 1 ''a@b.com'' attempts lock], sessions = [] \<rparr>"

definition ex_db2 :: db where
  "ex_db2 =
     \<lparr> users = [ex_user 1 ''a@b.com'' None None, ex_user 2 ''c@d.com'' None None],
       sessions = [ex_session ''A'' 1 5000, ex_session ''B'' 1 5000, ex_session ''C'' 2 5000,
                   ex_session ''E'' 1 500] \<rparr>"

text \<open>Four failed attempts at the first account, a second apart.\<close>

definition ex_attempts :: "(env \<times> request) list" where
  "ex_attempts = map (\<lambda>t. (ex_env t, ex_login ''A@B.com'' ''guess'')) [1000, 2000, 3000, 4000]"

text \<open>Two login requests that both run \<^verbatim>\<open>findOne\<close> before either goes on: each
  handler continues from the document it read, and the writes of the second act on the
  store the first has left.  The handler suspends at every \<^verbatim>\<open>await\<close>, so this
  order of the four store calls is one the server can produce.\<close>

definition login_interleaved ::
  "env \<Rightarrow> request \<Rightarrow> login_data \<Rightarrow> env \<Rightarrow> request \<Rightarrow> login_data \<Rightarrow> db \<Rightarrow>
     response \<times> response \<times> db" where
  "login_interleaved env1 req1 data1 env2 req2 data2 d =
     (let found1 = findOne (\<lambda>u. u_email u = ld_email data1) (users d);
          found2 = findOne (\<lambda>u. u_email u = ld_email data2) (users d);
          (r1, d1) = login_with_user env1 req1 data1 found1 d;
          (r2, d2) = login_with_user env2 req2 data2 found2 d1
      in (r1, r2, d2))"

text \<open>The same two requests handled one after the other.\<close>

definition login_serial ::
  "env \<Rightarrow> request \<Rightarrow> env \<Rightarrow> request \<Rightarrow> db \<Rightarrow> response \<times> response \<times> db" where
  "login_serial env1 req1 env2 req2 d =
     (let (r1, d1) = login env1 req1 d;
          (r2, d2) = login env2 req2 d1
      in (r1, r2, d2))"

definition ex_guess :: login_data where
  "ex_guess = \<lparr> ld_email = ''a@b.com'', ld_password = ''guess'', ld_rememberMe = False \<rparr>"

definition ex_register :: "string \<Rightarrow> string \<Rightarrow> request" where
  "ex_register e p = ex_request None (Some (ex_credentials e p))"

definition ex_password_change :: json where
  "ex_password_change =
     JObj [(''currentPassword'', JStr ''Abcdef1!''), (''newPassword'', JStr ''Xyzabc2?'')]"

definition ex_patch :: profile_patch where
  "ex_patch =
     \<lparr> pp_name = None, pp_currentPassword = Some ''Abcdef1!'', pp_newPassword = Some ''Xyzabc2?'',
       pp_preferences = None \<rparr>"

definition ex_confirmation :: json where
  "ex_confirmation = JObj [(''password'', JStr ''Abcdef1!'')]"

section \<open>Properties of the collection operations\<close>

lemma updateOne_ids:
  assumes "\<And>v. u_id (f v) = u_id v"
  shows "map u_id (updateOne P f xs) = map u_id xs"
  using assms by (induction xs) auto

lemma find_updateOne:
  assumes "distinct (map u_id xs)"
      and "find (\<lambda>v. u_email v = e) xs = Some u"
      and "\<And>v. u_email (f v) = u_email v"
  shows "find (\<lambda>v. u_email v = e) (updateOne (\<lambda>v. u_id v = u_id u) f xs) = Some (f u)"
  using assms
proof (induction xs)
  case Nil
  then show ?case by simp
next
  case (Cons x xs)
  show ?case
  proof (cases "u_email x = e")
    case True
    with Cons.prems show ?thesis by simp
  next
    case False
    with Cons.prems have fu: "find (\<lambda>v. u_email v = e) xs = Some u" by simp
    then have "u \<in> set xs" by (auto simp: find_Some_iff)
    with Cons.prems(1) have "u_id x \<noteq> u_id u" by auto
    with False Cons.IH fu Cons.prems show ?thesis by simp
  qed
qed

section \<open>Login: single steps\<close>

lemma failed_update_fields:
  "u_id (failed_update n t v) = u_id v"
  "u_email (failed_update n t v) = u_email v"
  "u_password (failed_update n t v) = u_password v"
  "u_loginAttempts (failed_update n t v) = Some n"
  "u_lockUntil (failed_update n t v) =
     (if n \<ge> MAX_LOGIN_ATTEMPTS then Some (t + LOCKOUT_DURATION) else u_lockUntil v)"
  by (simp_all add: failed_update_def)

lemma success_update_fields:
  "u_id (success_update t v) = u_id v"
  "u_email (success_update t v) = u_email v"
  "u_password (success_update t v) = u_password v"
  "u_loginAttempts (success_update t v) = None"
  "u_lockUntil (success_update t v) = None"
  by (simp_all add: success_update_def)

lemma login_body_Some:
  "login_body env req = Some data \<Longrightarrow>
     login env req d =
       login_with_user env req data (findOne (\<lambda>u. u_email u = ld_email data) (users d)) d"
  by (auto simp: login_body_def login_def split: if_splits option.splits sum.splits)

lemma login_body_None:
  "login_body env req = None \<Longrightarrow> snd (login env req d) = d"
  by (auto simp: login_body_def login_def split: if_splits option.splits sum.splits)

lemma wrong_password_attempt_body:
  "wrong_password_attempt e pw (env, req) \<Longrightarrow>
     \<exists>data. login_body env req = Some data \<and> ld_email data = e \<and>
            \<not> bcrypt_compare env (ld_password data) pw"
  by (auto simp: wrong_password_attempt_def login_body_def split: option.splits sum.splits)

lemma right_password_attempt_body:
  "right_password_attempt e pw (env, req) \<Longrightarrow>
     \<exists>data. login_body env req = Some data \<and> ld_email data = e \<and>
            bcrypt_compare env (ld_password data) pw"
  by (auto simp: right_password_attempt_def login_body_def split: option.splits sum.splits)

lemma login_failed_step:
  assumes "wrong_password_attempt e (u_password u) (env, req)"
      and "findOne (\<lambda>v. u_email v = e) (users d) = Some u"
      and "\<not> is_locked u (now env)"
  shows "login env req d =
           ((json_response 401 ''INVALID_CREDENTIALS''
               (if attempts_read u + 1 \<ge> MAX_LOGIN_ATTEMPTS
                then ''Too many failed attempts. Account has been locked.''
                else ''Invalid email or password''))
              \<lparr> r_attemptsRemaining := Some (max 0 (MAX_LOGIN_ATTEMPTS - (attempts_read u + 1))) \<rparr>,
            d\<lparr> users := updateOne (\<lambda>v. u_id v = u_id u)
                           (failed_update (attempts_read u + 1) (now env)) (users d) \<rparr>)"
proof -
  from wrong_password_attempt_body[OF assms(1)] obtain data where
    b: "login_body env req = Some data" and e: "ld_email data = e"
    and w: "\<not> bcrypt_compare env (ld_password data) (u_password u)" by blast
  show ?thesis
    using assms(2,3) e w by (simp add: login_body_Some[OF b] login_with_user_def Let_def)
qed

lemma failed_step_user:
  assumes "wrong_password_attempt e (u_password u) (env, req)"
      and "findOne (\<lambda>v. u_email v = e) (users d) = Some u"
      and "\<not> is_locked u (now env)"
      and "distinct (map u_id (users d))"
  shows "findOne (\<lambda>v. u_email v = e) (users (snd (login env req d))) =
           Some (failed_update (attempts_read u + 1) (now env) u)"
    and "distinct (map u_id (users (snd (login env req d))))"
  using assms(2,4)
  by (simp_all add: login_failed_step[OF assms(1-3)] findOne_def find_updateOne
        updateOne_ids failed_update_fields)

lemma failed_seq:
  assumes "list_all (wrong_password_attempt e pw) rs"
      and "findOne (\<lambda>v. u_email v = e) (users d) = Some u"
      and "u_password u = pw"
      and "u_lockUntil u = None"
      and "attempts_read u + int (length rs) < MAX_LOGIN_ATTEMPTS"
      and "distinct (map u_id (users d))"
  shows "\<exists>u'. findOne (\<lambda>v. u_email v = e) (users (login_seq rs d)) = Some u' \<and>
              attempts_read u' = attempts_read u + int (length rs) \<and>
              (rs \<noteq> [] \<longrightarrow> u_loginAttempts u' = Some (attempts_read u + int (length rs))) \<and>
              u_lockUntil u' = None \<and> u_password u' = pw \<and>
              distinct (map u_id (users (login_seq rs d)))"
  using assms
proof (induction rs arbitrary: d u)
  case Nil
  then show ?case by simp
next
  case (Cons er rs)
  obtain env req where er: "er = (env, req)" by (cases er)
  let ?u1 = "failed_update (attempts_read u + 1) (now env) u"
  let ?d1 = "snd (login env req d)"
  from Cons.prems er have w: "wrong_password_attempt e (u_password u) (env, req)" by simp
  from Cons.prems have nl: "\<not> is_locked u (now env)" by (simp add: is_locked_def)
  note st = failed_step_user[OF w Cons.prems(2) nl Cons.prems(6)]
  from Cons.prems(5) have small: "\<not> attempts_read u + 1 \<ge> MAX_LOGIN_ATTEMPTS" by simp
  have a1: "attempts_read ?u1 = attempts_read u + 1"
    by (simp add: attempts_read_def failed_update_fields)
  have l1: "u_lockUntil ?u1 = None"
    using small Cons.prems(4) by (simp add: failed_update_fields)
  have p1: "u_password ?u1 = pw"
    using Cons.prems(3) by (simp add: failed_update_fields)
  have "\<exists>u'. findOne (\<lambda>v. u_email v = e) (users (login_seq rs ?d1)) = Some u' \<and>
              attempts_read u' = attempts_read ?u1 + int (length rs) \<and>
              (rs \<noteq> [] \<longrightarrow> u_loginAttempts u' = Some (attempts_read ?u1 + int (length rs))) \<and>
              u_lockUntil u' = None \<and> u_password u' = pw \<and>
              distinct (map u_id (users (login_seq rs ?d1)))"
  proof (rule Cons.IH[OF _ st(1) p1 l1 _ st(2)])
    show "list_all (wrong_password_attempt e pw) rs" using Cons.prems(1) by simp
    show "attempts_read ?u1 + int (length rs) < MAX_LOGIN_ATTEMPTS"
      using Cons.prems(5) a1 by simp
  qed
  then obtain u' where u': "findOne (\<lambda>v. u_email v = e) (users (login_seq rs ?d1)) = Some u'"
      "attempts_read u' = attempts_read ?u1 + int (length rs)"
      "rs \<noteq> [] \<longrightarrow> u_loginAttempts u' = Some (attempts_read ?u1 + int (length rs))"
      "u_lockUntil u' = None" "u_password u' = pw"
      "distinct (map u_id (users (login_seq rs ?d1)))" by blast
  have la: "u_loginAttempts u' = Some (attempts_read u + int (length (er # rs)))"
  proof (cases rs)
    case Nil
    with u'(1) st(1) have "u' = ?u1" by simp
    with Nil show ?thesis by (simp add: failed_update_fields)
  next
    case (Cons a list)
    with u'(3) a1 show ?thesis by simp
  qed
  from u' a1 la show ?case by (simp add: er)
qed

lemmas lower_simps = toLowerCase_def toLowerCase_char_def case_pairs_def upper_chars_def
  lower_chars_def latin1_upper_def latin1_lower_def

lemmas loginSchema_simps = loginSchema_def loginSchema_email_def loginSchema_password_def
  loginSchema_rememberMe_def issues_of_def

lemmas ex_simps = ex_env_def ex_user_def ex_session_def ex_request_def ex_credentials_def
  ex_login_def ex_db_def ex_db2_def

lemma ex_login_body:
  "login_body (ex_env t) (ex_login ''A@B.com'' p) =
     (if p = [] then None
      else Some \<lparr> ld_email = ''a@b.com'', ld_password = p, ld_rememberMe = False \<rparr>)"
  by (simp add: login_body_def ex_simps client_ip_def loginSchema_simps lower_simps)

lemma ex_wrong_attempt:
  "wrong_password_attempt ''a@b.com'' ''#Abcdef1!'' (ex_env t, ex_login ''A@B.com'' ''guess'')"
  by (simp add: wrong_password_attempt_def ex_simps client_ip_def loginSchema_simps lower_simps)

section \<open>Lockout\<close>

text \<open>
  Claim C1.  Start from an account whose failed-attempt counter reads \<open>0\<close> and that has
  no \<open>lockUntil\<close>, in a collection with unique identifiers.  After \<open>N\<close> consecutive
  failed logins (each passes the limiter and the schema and fails the password test),
  \<open>0 < N < 5\<close>, the stored \<open>loginAttempts\<close> is \<open>N\<close> and \<open>lockUntil\<close> is still
  absent.  The fifth failed login stores \<open>loginAttempts = 5\<close> and, in the same update,
  \<open>lockUntil\<close> at exactly 30 minutes (\<open>1800000\<close> ms) after its clock reading.
\<close>

theorem failed_attempts_count_and_lock:
  assumes "distinct (map u_id (users d))"
      and "findOne (\<lambda>v. u_email v = e) (users d) = Some u"
      and "attempts_read u = 0"
      and "u_lockUntil u = None"
      and "list_all (wrong_password_attempt e (u_password u)) rs"
  shows "(0 < length rs \<and> length rs < 5 \<longrightarrow>
            (\<exists>u'. findOne (\<lambda>v. u_email v = e) (users (login_seq rs d)) = Some u' \<and>
                   u_loginAttempts u' = Some (int (length rs)) \<and> u_lockUntil u' = None)) \<and>
         (length rs = 4 \<and> wrong_password_attempt e (u_password u) (env, req) \<longrightarrow>
            (\<exists>u'. findOne (\<lambda>v. u_email v = e) (users (snd (login env req (login_seq rs d)))) = Some u' \<and>
                   u_loginAttempts u' = Some 5 \<and>
                   u_lockUntil u' = Some (now env + 30 * 60 * 1000)))"
proof (intro conjI impI)
  assume n: "0 < length rs \<and> length rs < 5"
  then have "attempts_read u + int (length rs) < MAX_LOGIN_ATTEMPTS"
    using assms(3) by (simp add: MAX_LOGIN_ATTEMPTS_def)
  from failed_seq[OF assms(5,2) refl assms(4) this assms(1)] n assms(3)
  show "\<exists>u'. findOne (\<lambda>v. u_email v = e) (users (login_seq rs d)) = Some u' \<and>
             u_loginAttempts u' = Some (int (length rs)) \<and> u_lockUntil u' = None"
    by auto
next
  assume n: "length rs = 4 \<and> wrong_password_attempt e (u_password u) (env, req)"
  then have "attempts_read u + int (length rs) < MAX_LOGIN_ATTEMPTS"
    using assms(3) by (simp add: MAX_LOGIN_ATTEMPTS_def)
  from failed_seq[OF assms(5,2) refl assms(4) this assms(1)] obtain u4 where
    u4: "findOne (\<lambda>v. u_email v = e) (users (login_seq rs d)) = Some u4"
        "attempts_read u4 = attempts_read u + int (length rs)"
        "u_lockUntil u4 = None" "u_password u4 = u_password u"
        "distinct (map u_id (users (login_seq rs d)))" by blast
  from n u4(4) have w: "wrong_password_attempt e (u_password u4) (env, req)" by simp
  from u4(3) have nl: "\<not> is_locked u4 (now env)" by (simp add: is_locked_def)
  from u4(2) n assms(3) have a: "attempts_read u4 + 1 = 5" by simp
  show "\<exists>u'. findOne (\<lambda>v. u_email v = e) (users (snd (login env req (login_seq rs d)))) = Some u' \<and>
             u_loginAttempts u' = Some 5 \<and> u_lockUntil u' = Some (now env + 30 * 60 * 1000)"
    using failed_step_user(1)[OF w u4(1) nl u4(5)] a
    by (simp add: failed_update_fields MAX_LOGIN_ATTEMPTS_def LOCKOUT_DURATION_def)
qed

theorem failed_attempts_count_and_lock_witness:
  "list_all (wrong_password_attempt ''a@b.com'' ''#Abcdef1!'') ex_attempts \<and>
   (\<exists>u'. findOne (\<lambda>v. u_email v = ''a@b.com'') (users (login_seq ex_attempts (ex_db None None))) = Some u' \<and>
          u_loginAttempts u' = Some 4 \<and> u_lockUntil u' = None) \<and>
   (\<exists>u'. findOne (\<lambda>v. u_email v = ''a@b.com'')
            (users (snd (login (ex_env 5000) (ex_login ''A@B.com'' ''guess'')
                           (login_seq ex_attempts (ex_db None None))))) = Some u' \<and>
          u_loginAttempts u' = Some 5 \<and> u_lockUntil u' = Some 1805000)"
  using failed_attempts_count_and_lock[of "ex_db None None" "''a@b.com''"
          "ex_user 1 ''a@b.com'' None None" ex_attempts "ex_env 5000" "ex_login ''A@B.com'' ''guess''"]
        ex_wrong_attempt
  by (simp add: ex_attempts_def ex_db_def findOne_def attempts_read_def)
     (simp add: ex_user_def ex_env_def)

text \<open>
  Claim C2.  A login for an account whose \<open>lockUntil\<close> is set and greater than the clock
  reading is answered with status 423 and code \<open>ACCOUNT_LOCKED\<close>, the minutes that
  remain (the difference rounded up to whole minutes, at least one) and \<open>lockUntil\<close>.
  The store is left as it was, so the counter does not move, and the answer is the same
  for every password and every outcome of \<open>bcrypt.compare\<close>: the password is not
  looked at, and a correct one is rejected like any other.
\<close>

theorem locked_account_rejected:
  assumes "limiter_check env 10 (client_ip req)"
      and "q_json req = Some body"
      and "loginSchema env body = Inr data"
      and "findOne (\<lambda>v. u_email v = ld_email data) (users d) = Some u"
      and "u_lockUntil u = Some l"
      and "l > now env"
  shows "login env req d = (account_locked (Some l) (now env), d) \<and>
         r_status (account_locked (Some l) (now env)) = 423 \<and>
         r_code (account_locked (Some l) (now env)) = ''ACCOUNT_LOCKED'' \<and>
         r_message (account_locked (Some l) (now env)) = Some (LockedFor (remainingTime l (now env))) \<and>
         0 < remainingTime l (now env) \<and>
         (remainingTime l (now env) - 1) * 60000 < l - now env \<and>
         l - now env \<le> remainingTime l (now env) * 60000 \<and>
         (\<forall>c. login (env\<lparr> bcrypt_compare := c \<rparr>) req d = login env req d)"
proof -
  have b: "login_body env req = Some data"
    using assms(1-3) by (simp add: login_body_def)
  have lk: "is_locked u (now env)"
    using assms(5,6) by (simp add: is_locked_def)
  have r: "login env req d = (account_locked (Some l) (now env), d)"
    using assms(4,5) lk by (simp add: login_body_Some[OF b] login_with_user_def)
  have "\<And>c. login (env\<lparr> bcrypt_compare := c \<rparr>) req d = (account_locked (Some l) (now env), d)"
  proof -
    fix c
    have "\<And>v. loginSchema_email (env\<lparr> bcrypt_compare := c \<rparr>) v = loginSchema_email env v"
      by (simp add: loginSchema_email_def split: option.splits json.splits)
    then have s: "loginSchema (env\<lparr> bcrypt_compare := c \<rparr>) body = loginSchema env body"
      by (simp add: loginSchema_def split: json.splits)
    have "login_body (env\<lparr> bcrypt_compare := c \<rparr>) req = Some data"
      using assms(1-3) s by (simp add: login_body_def)
    from login_body_Some[OF this]
    show "login (env\<lparr> bcrypt_compare := c \<rparr>) req d = (account_locked (Some l) (now env), d)"
      using assms(4,5) lk by (simp add: login_with_user_def)
  qed
  moreover have "0 < remainingTime l (now env)"
    using assms(6) by (simp add: remainingTime_def div_neg_pos_less0 pos_imp_zdiv_neg_iff)
  moreover have "(remainingTime l (now env) - 1) * 60000 < l - now env"
    by (simp add: remainingTime_def)
  moreover have "l - now env \<le> remainingTime l (now env) * 60000"
    by (simp add: remainingTime_def)
  ultimately show ?thesis
    using r by (simp add: account_locked_def json_response_def)
qed

theorem locked_account_rejected_witness:
  "bcrypt_compare (ex_env 1000) ''Abcdef1!'' (u_password (ex_user 1 ''a@b.com'' (Some 5) (Some 61001))) \<and>
   login (ex_env 1000) (ex_login ''A@B.com'' ''Abcdef1!'') (ex_db (Some 5) (Some 61001)) =
     (account_locked (Some 61001) 1000, ex_db (Some 5) (Some 61001)) \<and>
   r_code (account_locked (Some 61001) 1000) = ''ACCOUNT_LOCKED'' \<and>
   r_message (account_locked (Some 61001) 1000) = Some (LockedFor 2)"
  using locked_account_rejected[of "ex_env 1000" "ex_login ''A@B.com'' ''Abcdef1!''"
          "ex_credentials ''A@B.com'' ''Abcdef1!''"
          "\<lparr> ld_email = ''a@b.com'', ld_password = ''Abcdef1!'', ld_rememberMe = False \<rparr>"
          "ex_db (Some 5) (Some 61001)" "ex_user 1 ''a@b.com'' (Some 5) (Some 61001)" 61001]
  by (simp add: ex_simps client_ip_def loginSchema_simps lower_simps findOne_def
        remainingTime_def)

text \<open>
  Claim C8, as the code has it.  A failed password verification is answered with status
  401 and code \<open>INVALID_CREDENTIALS\<close> in every case, with
  \<open>attemptsRemaining = max 0 (5 - n)\<close> for the new count \<open>n\<close>.  When \<open>n\<close> reaches
  the maximum only the message changes (it announces the lock); the code
  \<open>ACCOUNT_LOCKED\<close> is given only to a request that finds the account locked already.
\<close>

theorem failed_verification_response:
  assumes "wrong_password_attempt e (u_password u) (env, req)"
      and "findOne (\<lambda>v. u_email v = e) (users d) = Some u"
      and "\<not> is_locked u (now env)"
  shows "r_status (fst (login env req d)) = 401 \<and>
         r_code (fst (login env req d)) = ''INVALID_CREDENTIALS'' \<and>
         r_attemptsRemaining (fst (login env req d)) = Some (max 0 (5 - (attempts_read u + 1))) \<and>
         r_message (fst (login env req d)) =
           Some (Text (if attempts_read u + 1 \<ge> 5
                       then ''Too many failed attempts. Account has been locked.''
                       else ''Invalid email or password''))"
  by (simp add: login_failed_step[OF assms] json_response_def MAX_LOGIN_ATTEMPTS_def)

theorem failed_verification_response_witness:
  "r_status (fst (login (ex_env 1000) (ex_login ''A@B.com'' ''guess'') (ex_db (Some 2) None))) = 401 \<and>
   r_code (fst (login (ex_env 1000) (ex_login ''A@B.com'' ''guess'') (ex_db (Some 2) None))) =
     ''INVALID_CREDENTIALS'' \<and>
   r_attemptsRemaining (fst (login (ex_env 1000) (ex_login ''A@B.com'' ''guess'') (ex_db (Some 2) None))) =
     Some 2 \<and>
   r_message (fst (login (ex_env 1000) (ex_login ''A@B.com'' ''guess'') (ex_db (Some 2) None))) =
     Some (Text ''Invalid email or password'')"
  using failed_verification_response[of "''a@b.com''" "ex_user 1 ''a@b.com'' (Some 2) None"
          "ex_env 1000" "ex_login ''A@B.com'' ''guess''" "ex_db (Some 2) None"]
        ex_wrong_attempt[of 1000]
  by (simp add: ex_db_def findOne_def is_locked_def attempts_read_def)
     (simp add: ex_user_def)

text \<open>The failure that takes the counter from 4 to 5 writes the lock and is still
  answered \<open>INVALID_CREDENTIALS\<close>.\<close>

theorem threshold_failure_counterexample:
  "\<not> r_code (fst (login (ex_env 1000) (ex_login ''A@B.com'' ''guess'') (ex_db (Some 4) None))) =
       ''ACCOUNT_LOCKED'' \<and>
   r_code (fst (login (ex_env 1000) (ex_login ''A@B.com'' ''guess'') (ex_db (Some 4) None))) =
     ''INVALID_CREDENTIALS'' \<and>
   r_status (fst (login (ex_env 1000) (ex_login ''A@B.com'' ''guess'') (ex_db (Some 4) None))) = 401 \<and>
   map u_loginAttempts
     (users (snd (login (ex_env 1000) (ex_login ''A@B.com'' ''guess'') (ex_db (Some 4) None)))) =
     [Some 5] \<and>
   map u_lockUntil
     (users (snd (login (ex_env 1000) (ex_login ''A@B.com'' ''guess'') (ex_db (Some 4) None)))) =
     [Some 1801000]"
proof -
  have b: "login_body (ex_env 1000) (ex_login ''A@B.com'' ''guess'') = Some ex_guess"
    by (simp add: ex_login_body ex_guess_def)
  have "login (ex_env 1000) (ex_login ''A@B.com'' ''guess'') (ex_db (Some 4) None) =
          ((json_response 401 ''INVALID_CREDENTIALS''
              ''Too many failed attempts. Account has been locked.'')
             \<lparr> r_attemptsRemaining := Some 0 \<rparr>,
           \<lparr> users = [(ex_user 1 ''a@b.com'' (Some 5) (Some 1801000))\<lparr> u_updatedAt := 1000 \<rparr>],
             sessions = [] \<rparr>)"
    unfolding login_body_Some[OF b]
    by (simp add: login_with_user_def findOne_def is_locked_def attempts_read_def failed_update_def
          MAX_LOGIN_ATTEMPTS_def LOCKOUT_DURATION_def ex_db_def ex_user_def ex_env_def ex_guess_def)
  then show ?thesis
    by (simp add: json_response_def ex_user_def)
qed

section \<open>Two failed logins at one below the threshold\<close>

lemma login_with_user_failed:
  assumes "\<not> is_locked u (now env)"
      and "\<not> bcrypt_compare env (ld_password data) (u_password u)"
  shows "login_with_user env req data (Some u) d =
           ((json_response 401 ''INVALID_CREDENTIALS''
               (if attempts_read u + 1 \<ge> MAX_LOGIN_ATTEMPTS
                then ''Too many failed attempts. Account has been locked.''
                else ''Invalid email or password''))
              \<lparr> r_attemptsRemaining := Some (max 0 (MAX_LOGIN_ATTEMPTS - (attempts_read u + 1))) \<rparr>,
            d\<lparr> users := updateOne (\<lambda>v. u_id v = u_id u)
                           (failed_update (attempts_read u + 1) (now env)) (users d) \<rparr>)"
  using assms by (simp add: login_with_user_def Let_def)

lemma updateOne_twice:
  assumes "\<And>v. u_id (f v) = u_id v"
  shows "updateOne (\<lambda>v. u_id v = i) g (updateOne (\<lambda>v. u_id v = i) f xs) =
         updateOne (\<lambda>v. u_id v = i) (\<lambda>v. g (f v)) xs"
  using assms by (induction xs) auto

lemma find_id_updateOne:
  assumes "\<And>v. u_id (f v) = u_id v"
  shows "find (\<lambda>v. u_id v = i) (updateOne (\<lambda>v. u_id v = j) f xs) =
           (if i = j then map_option f (find (\<lambda>v. u_id v = i) xs) else find (\<lambda>v. u_id v = i) xs)"
  using assms by (induction xs) auto

text \<open>
  Claim C9, as the code has it.  The counter is written by read-modify-write: a failed
  login stores the value it read with \<open>findOne\<close> plus one (\<open>$set\<close>), there is no
  atomic increment.  Take an account whose counter reads 4, without a lock, and two
  logins with passwords that do not verify.
  \<^item> Handled one after the other (the second within the lockout window of the first):
    the first stores 5 with \<open>lockUntil\<close> and announces the lock, the second is
    rejected as \<open>ACCOUNT_LOCKED\<close> without a write, and the counter ends at 5, the
    four earlier failures and the one recorded now.
  \<^item> When both read the account before either writes: both store 5, both announce the
    lock, and the counter ends at 5 although two failures were written.
\<close>

theorem two_failures_at_threshold:
  assumes "distinct (map u_id (users d))"
      and "findOne (\<lambda>v. u_email v = e) (users d) = Some u"
      and "attempts_read u = 4"
      and "u_lockUntil u = None"
      and "login_body env1 req1 = Some data1" and "ld_email data1 = e"
      and "\<not> bcrypt_compare env1 (ld_password data1) (u_password u)"
      and "login_body env2 req2 = Some data2" and "ld_email data2 = e"
      and "\<not> bcrypt_compare env2 (ld_password data2) (u_password u)"
      and "now env2 < now env1 + LOCKOUT_DURATION"
  shows "(\<exists>r1 r2 d2 u'.
            login_serial env1 req1 env2 req2 d = (r1, r2, d2) \<and>
            r_message r1 = Some (Text ''Too many failed attempts. Account has been locked.'') \<and>
            r_code r2 = ''ACCOUNT_LOCKED'' \<and>
            findOne (\<lambda>v. u_email v = e) (users d2) = Some u' \<and>
            u_loginAttempts u' = Some 5 \<and> u_lockUntil u' = Some (now env1 + LOCKOUT_DURATION)) \<and>
         (\<exists>r1 r2 d2 u'.
            login_interleaved env1 req1 data1 env2 req2 data2 d = (r1, r2, d2) \<and>
            r_message r1 = Some (Text ''Too many failed attempts. Account has been locked.'') \<and>
            r_message r2 = Some (Text ''Too many failed attempts. Account has been locked.'') \<and>
            r_code r1 = ''INVALID_CREDENTIALS'' \<and> r_code r2 = ''INVALID_CREDENTIALS'' \<and>
            findOne (\<lambda>v. u_email v = e) (users d2) = Some u' \<and>
            u_loginAttempts u' = Some 5 \<and> u_lockUntil u' = Some (now env2 + LOCKOUT_DURATION))"
proof (rule conjI)
  let ?f1 = "failed_update 5 (now env1)"
  let ?f2 = "failed_update 5 (now env2)"
  let ?d1 = "d\<lparr> users := updateOne (\<lambda>v. u_id v = u_id u) ?f1 (users d) \<rparr>"
  let ?msg = "''Too many failed attempts. Account has been locked.''"
  let ?r = "(json_response 401 ''INVALID_CREDENTIALS'' ?msg)\<lparr> r_attemptsRemaining := Some 0 \<rparr>"
  have nl1: "\<not> is_locked u (now env1)" and nl2: "\<not> is_locked u (now env2)"
    using assms(4) by (simp_all add: is_locked_def)
  have s1: "login_with_user env1 req1 data1 (Some u) d = (?r, ?d1)"
    using assms(3) by (simp add: login_with_user_failed[OF nl1 assms(7)] MAX_LOGIN_ATTEMPTS_def)
  have f1: "findOne (\<lambda>v. u_email v = e) (users ?d1) = Some (?f1 u)"
    using assms(1,2) by (simp add: findOne_def find_updateOne failed_update_fields)
  have lk: "is_locked (?f1 u) (now env2)"
    using assms(11) by (simp add: is_locked_def failed_update_fields MAX_LOGIN_ATTEMPTS_def)
  have l1: "login env1 req1 d = (?r, ?d1)"
    using s1 assms(2,6) by (simp add: login_body_Some[OF assms(5)])
  have l2: "login env2 req2 ?d1 = (account_locked (u_lockUntil (?f1 u)) (now env2), ?d1)"
    using f1 lk assms(9) unfolding login_body_Some[OF assms(8)]
    by (simp add: login_with_user_def)
  show "\<exists>r1 r2 d2 u'.
            login_serial env1 req1 env2 req2 d = (r1, r2, d2) \<and>
            r_message r1 = Some (Text ?msg) \<and>
            r_code r2 = ''ACCOUNT_LOCKED'' \<and>
            findOne (\<lambda>v. u_email v = e) (users d2) = Some u' \<and>
            u_loginAttempts u' = Some 5 \<and> u_lockUntil u' = Some (now env1 + LOCKOUT_DURATION)"
    using f1 by (simp add: login_serial_def l1 l2 json_response_def account_locked_def
                   failed_update_fields MAX_LOGIN_ATTEMPTS_def)
  have s2: "login_with_user env2 req2 data2 (Some u) ?d1 =
              (?r, d\<lparr> users := updateOne (\<lambda>v. u_id v = u_id u) (\<lambda>v. ?f2 (?f1 v)) (users d) \<rparr>)"
    using assms(3)
    by (simp add: login_with_user_failed[OF nl2 assms(10)] MAX_LOGIN_ATTEMPTS_def
          updateOne_twice failed_update_fields)
  have f2: "findOne (\<lambda>v. u_email v = e)
              (updateOne (\<lambda>v. u_id v = u_id u) (\<lambda>v. ?f2 (?f1 v)) (users d)) = Some (?f2 (?f1 u))"
    using assms(1,2) by (simp add: findOne_def find_updateOne failed_update_fields)
  show "\<exists>r1 r2 d2 u'.
            login_interleaved env1 req1 data1 env2 req2 data2 d = (r1, r2, d2) \<and>
            r_message r1 = Some (Text ?msg) \<and> r_message r2 = Some (Text ?msg) \<and>
            r_code r1 = ''INVALID_CREDENTIALS'' \<and> r_code r2 = ''INVALID_CREDENTIALS'' \<and>
            findOne (\<lambda>v. u_email v = e) (users d2) = Some u' \<and>
            u_loginAttempts u' = Some 5 \<and> u_lockUntil u' = Some (now env2 + LOCKOUT_DURATION)"
    using f2 assms(2,6,9)
    by (simp add: login_interleaved_def s1 s2 json_response_def failed_update_fields
          MAX_LOGIN_ATTEMPTS_def)
qed

lemma ex_guess_body:
  "login_body (ex_env t) (ex_login ''A@B.com'' ''guess'') = Some ex_guess"
  by (simp add: ex_login_body ex_guess_def)

theorem two_failures_at_threshold_witness:
  "(\<exists>r1 r2 d2 u'.
      login_serial (ex_env 1000) (ex_login ''A@B.com'' ''guess'')
        (ex_env 1001) (ex_login ''A@B.com'' ''guess'') (ex_db (Some 4) None) = (r1, r2, d2) \<and>
      r_message r1 = Some (Text ''Too many failed attempts. Account has been locked.'') \<and>
      r_code r2 = ''ACCOUNT_LOCKED'' \<and>
      findOne (\<lambda>v. u_email v = ''a@b.com'') (users d2) = Some u' \<and>
      u_loginAttempts u' = Some 5 \<and> u_lockUntil u' = Some 1801000) \<and>
   (\<exists>r1 r2 d2 u'.
      login_interleaved (ex_env 1000) (ex_login ''A@B.com'' ''guess'') ex_guess
        (ex_env 1001) (ex_login ''A@B.com'' ''guess'') ex_guess (ex_db (Some 4) None) = (r1, r2, d2) \<and>
      r_message r1 = Some (Text ''Too many failed attempts. Account has been locked.'') \<and>
      r_message r2 = Some (Text ''Too many failed attempts. Account has been locked.'') \<and>
      r_code r1 = ''INVALID_CREDENTIALS'' \<and> r_code r2 = ''INVALID_CREDENTIALS'' \<and>
      findOne (\<lambda>v. u_email v = ''a@b.com'') (users d2) = Some u' \<and>
      u_loginAttempts u' = Some 5 \<and> u_lockUntil u' = Some 1801001)"
  using two_failures_at_threshold[of "ex_db (Some 4) None" "''a@b.com''"
          "ex_user 1 ''a@b.com'' (Some 4) None" "ex_env 1000" "ex_login ''A@B.com'' ''guess''"
          ex_guess "ex_env 1001" "ex_login ''A@B.com'' ''guess''" ex_guess]
        ex_guess_body[of 1000] ex_guess_body[of 1001]
  by (simp add: ex_db_def findOne_def attempts_read_def LOCKOUT_DURATION_def)
     (simp add: ex_user_def ex_env_def ex_guess_def)

text \<open>Both handlers read the counter at 4: two failures are written, the counter ends at
  5, and both responses announce the lock.\<close>

theorem lost_increment_counterexample:
  "login_interleaved (ex_env 1000) (ex_login ''A@B.com'' ''guess'') ex_guess
     (ex_env 1001) (ex_login ''A@B.com'' ''guess'') ex_guess (ex_db (Some 4) None) =
     ((json_response 401 ''INVALID_CREDENTIALS''
         ''Too many failed attempts. Account has been locked.'')
        \<lparr> r_attemptsRemaining := Some 0 \<rparr>,
      (json_response 401 ''INVALID_CREDENTIALS''
         ''Too many failed attempts. Account has been locked.'')
        \<lparr> r_attemptsRemaining := Some 0 \<rparr>,
      \<lparr> users = [(ex_user 1 ''a@b.com'' (Some 5) (Some 1801001))\<lparr> u_updatedAt := 1001 \<rparr>],
        sessions = [] \<rparr>)"
  by (simp add: login_interleaved_def login_with_user_def findOne_def is_locked_def
        attempts_read_def failed_update_def MAX_LOGIN_ATTEMPTS_def LOCKOUT_DURATION_def
        ex_db_def ex_user_def ex_env_def ex_guess_def)

section \<open>Password rules\<close>

lemma commonPasswords_lower:
  "toLowerCase ''password'' = ''password''"
  "toLowerCase ''12345678'' = ''12345678''"
  "toLowerCase ''qwerty123'' = ''qwerty123''"
  "toLowerCase ''admin123'' = ''admin123''"
  "toLowerCase ''letmein'' = ''letmein''"
  "toLowerCase ''welcome123'' = ''welcome123''"
  by (simp_all add: lower_simps)

text \<open>The schema of \<^verbatim>\<open>lib/validation.ts\<close> accepts exactly what the rule of the
  specification accepts.\<close>

lemma passwordSchema_meets_policy:
  "passwordSchema_accepts p \<longleftrightarrow> policy_accepts p"
  by (simp add: passwordSchema_accepts_def passwordSchema_issues_def policy_accepts_def
        commonPasswords_def commonPasswords_lower not_less)

lemma ex_passwords_lower:
  "toLowerCase ''Password1!'' = ''password1!''"
  "toLowerCase ''#Abcdef1!'' = ''#abcdef1!''"
  by (simp_all add: lower_simps)

lemma ex_password_regex:
  "password_regex ''Password1!''"
  "password_regex ''Abcdef1!''"
  "\<not> password_regex ''#Abcdef1!''"
  by (simp_all add: password_regex_def first_line_def lower_chars_def upper_chars_def
        digit_chars_def special_chars_def)

lemma ex_password_classes:
  "list_ex (\<lambda>c. c \<in> set lower_chars) ''#Abcdef1!''"
  "list_ex (\<lambda>c. c \<in> set upper_chars) ''#Abcdef1!''"
  "list_ex (\<lambda>c. c \<in> set digit_chars) ''#Abcdef1!''"
  "list_ex (\<lambda>c. c \<in> set special_chars) ''#Abcdef1!''"
  by (simp_all add: lower_chars_def upper_chars_def digit_chars_def special_chars_def)

text \<open>
  Claim C7 at the registration route.  \<^verbatim>\<open>registerSchema\<close> does not use the schema
  above.  It accepts \<open>Password1!\<close>, which contains the denylisted \<open>password\<close> and
  which the rule and \<^verbatim>\<open>passwordSchema\<close> reject; and it rejects \<open>#Abcdef1!\<close>,
  which the rule and \<^verbatim>\<open>passwordSchema\<close> accept, because its regular expression
  wants the first character in \<^verbatim>\<open>[A-Za-z\d@$!%*?&]\<close>.
\<close>

theorem registerSchema_departs_from_policy:
  "registerSchema_password (Some (JStr ''Password1!'')) = Inr ''Password1!'' \<and>
   \<not> policy_accepts ''Password1!'' \<and>
   \<not> passwordSchema_accepts ''Password1!'' \<and>
   registerSchema_password (Some (JStr ''#Abcdef1!'')) =
     Inl [(Some ''password'', ''Password must contain at least one uppercase letter, one lowercase letter, one number, and one special character'')] \<and>
   policy_accepts ''#Abcdef1!'' \<and>
   passwordSchema_accepts ''#Abcdef1!''"
proof -
  have a: "registerSchema_password (Some (JStr ''Password1!'')) = Inr ''Password1!''"
    by (simp add: registerSchema_password_def password_checks_def ex_password_regex)
  have "includes_str (toLowerCase ''Password1!'') (toLowerCase ''password'')"
    by (simp add: ex_passwords_lower commonPasswords_lower)
  then have b: "\<not> policy_accepts ''Password1!''"
    by (simp add: policy_accepts_def commonPasswords_def)
  have c: "registerSchema_password (Some (JStr ''#Abcdef1!'')) =
     Inl [(Some ''password'', ''Password must contain at least one uppercase letter, one lowercase letter, one number, and one special character'')]"
    by (simp add: registerSchema_password_def password_checks_def ex_password_regex)
  have "list_all (\<lambda>w. \<not> includes_str (toLowerCase ''#Abcdef1!'') (toLowerCase w)) commonPasswords"
    by (simp add: commonPasswords_def ex_passwords_lower commonPasswords_lower)
  then have d: "policy_accepts ''#Abcdef1!''"
    unfolding policy_accepts_def
    by (intro conjI ex_password_classes) simp_all
  from a b c d show ?thesis
    by (simp add: passwordSchema_meets_policy)
qed

section \<open>Registration\<close>

lemma registerSchema_NODE_ENV:
  "registerSchema (env\<lparr> NODE_ENV := ne \<rparr>) body = registerSchema env body"
proof -
  have "\<And>v. registerSchema_email (env\<lparr> NODE_ENV := ne \<rparr>) v = registerSchema_email env v"
    by (simp add: registerSchema_email_def split: option.splits json.splits)
  then show ?thesis
    by (simp add: registerSchema_def split: json.splits)
qed

lemma register_valid:
  assumes "limiter_check env 5 (client_ip req)"
      and "q_json req = Some body"
      and "registerSchema env body = Inr data"
  shows "register env req d =
           (case findOne (\<lambda>u. u_email u = rd_email data) (users d) of
              Some existingUser \<Rightarrow>
                (json_response 409 ''USER_EXISTS''
                   (if NODE_ENV env = Some ''development''
                    then ''An account with this email already exists''
                    else ''If an account with this email exists, you will receive a confirmation email''),
                 d)
            | None \<Rightarrow>
                ((json_response 201 ''REGISTRATION_SUCCESS''
                    ''Registration successful! Please check your email for verification.'')
                   \<lparr> r_userId := Some (insertedId env) \<rparr>,
                 d\<lparr> users := insertOne (newUser env data) (users d) \<rparr>))"
  using assms by (simp add: register_def)

lemma register_NODE_ENV:
  "(fst (register (env\<lparr> NODE_ENV := ne \<rparr>) req d))\<lparr> r_message := m \<rparr> =
     (fst (register env req d))\<lparr> r_message := m \<rparr> \<and>
   snd (register (env\<lparr> NODE_ENV := ne \<rparr>) req d) = snd (register env req d)"
  by (simp add: register_def registerSchema_NODE_ENV json_response_def newUser_def
        validation_failed_def split: option.splits sum.splits)

text \<open>
  Claim C10.  For a registration that passes the limiter and the schema, in every
  environment: when a user with the (lower-cased) e-mail exists the response has status
  409 and code \<open>USER_EXISTS\<close> and nothing is stored; otherwise it has status 201 and
  code \<open>REGISTRATION_SUCCESS\<close> and the new user is inserted.  \<open>NODE_ENV\<close> changes
  nothing but the message text: for any two values of it the responses agree in every
  other field and the stores are equal.
\<close>

theorem register_reveals_existing_email:
  assumes "limiter_check env 5 (client_ip req)"
      and "q_json req = Some body"
      and "registerSchema env body = Inr data"
  shows "(list_ex (\<lambda>u. u_email u = rd_email data) (users d) \<longrightarrow>
            r_status (fst (register env req d)) = 409 \<and>
            r_code (fst (register env req d)) = ''USER_EXISTS'' \<and>
            snd (register env req d) = d) \<and>
         (\<not> list_ex (\<lambda>u. u_email u = rd_email data) (users d) \<longrightarrow>
            r_status (fst (register env req d)) = 201 \<and>
            r_code (fst (register env req d)) = ''REGISTRATION_SUCCESS'' \<and>
            users (snd (register env req d)) = users d @ [newUser env data]) \<and>
         (\<forall>ne m. (fst (register (env\<lparr> NODE_ENV := ne \<rparr>) req d))\<lparr> r_message := m \<rparr> =
                  (fst (register env req d))\<lparr> r_message := m \<rparr>) \<and>
         (\<forall>ne. snd (register (env\<lparr> NODE_ENV := ne \<rparr>) req d) = snd (register env req d))"
proof -
  have ex: "list_ex (\<lambda>u. u_email u = rd_email data) (users d) \<longleftrightarrow>
              findOne (\<lambda>u. u_email u = rd_email data) (users d) \<noteq> None"
    by (auto simp: findOne_def find_None_iff list_ex_iff)
  show ?thesis
    unfolding ex
    by (auto simp: register_valid[OF assms] register_NODE_ENV json_response_def insertOne_def
             split: option.splits)
qed

lemma ex_register_body:
  "registerSchema (ex_env t) (ex_credentials ''A@B.com'' ''Abcdef1!'') =
     Inr \<lparr> rd_email = ''a@b.com'', rd_password = ''Abcdef1!'' \<rparr>"
proof -
  have "toLowerCase ''A@B.com'' = ''a@b.com''"
    by (simp add: lower_simps)
  then show ?thesis
    by (simp add: registerSchema_def registerSchema_email_def registerSchema_password_def
          password_checks_def ex_password_regex ex_env_def ex_credentials_def)
qed

theorem register_reveals_existing_email_witness:
  "NODE_ENV (ex_env 1000) = Some ''production'' \<and>
   r_status (fst (register (ex_env 1000) (ex_register ''A@B.com'' ''Abcdef1!'') (ex_db None None))) = 409 \<and>
   r_code (fst (register (ex_env 1000) (ex_register ''A@B.com'' ''Abcdef1!'') (ex_db None None))) =
     ''USER_EXISTS'' \<and>
   r_status (fst (register (ex_env 1000) (ex_register ''A@B.com'' ''Abcdef1!'')
                    \<lparr> users = [], sessions = [] \<rparr>)) = 201"
  using register_reveals_existing_email[of "ex_env 1000" "ex_register ''A@B.com'' ''Abcdef1!''"
          "ex_credentials ''A@B.com'' ''Abcdef1!''"
          "\<lparr> rd_email = ''a@b.com'', rd_password = ''Abcdef1!'' \<rparr>" "ex_db None None"]
        register_reveals_existing_email[of "ex_env 1000" "ex_register ''A@B.com'' ''Abcdef1!''"
          "ex_credentials ''A@B.com'' ''Abcdef1!''"
          "\<lparr> rd_email = ''a@b.com'', rd_password = ''Abcdef1!'' \<rparr>" "\<lparr> users = [], sessions = [] \<rparr>"]
        ex_register_body[of 1000]
  by (simp add: ex_register_def ex_request_def client_ip_def ex_db_def)
     (simp add: ex_env_def ex_user_def)

section \<open>Sessions\<close>

lemma getUserFromSession_valid:
  "getUserFromSession t tok d \<noteq> None \<longleftrightarrow>
     list_ex (\<lambda>s. s_token s = tok \<and> t < s_expiresAt s) (sessions d)"
proof -
  have "getUserFromSession t tok d \<noteq> None \<longleftrightarrow>
          find (\<lambda>s. s_token s = tok \<and> t < s_expiresAt s) (sessions d) \<noteq> None"
    by (simp add: getUserFromSession_def findOne_def split: option.splits)
  then show ?thesis
    by (auto simp: find_None_iff list_ex_iff)
qed

lemma profile_routes_reject_invalid:
  assumes "session_cookie req = Some tok"
      and "\<not> list_ex (\<lambda>s. s_token s = tok \<and> now env < s_expiresAt s) (sessions d)"
  shows "profile_get env req d = (invalid_session, d)"
    and "profile_update env req d = (invalid_session, d)"
    and "profile_delete env req d = (invalid_session, d)"
proof -
  have n: "getUserFromSession (now env) tok d = None"
    using assms(2) getUserFromSession_valid[of "now env" tok d] by blast
  show "profile_get env req d = (invalid_session, d)"
    by (simp add: profile_get_def assms(1) n)
  show "profile_update env req d = (invalid_session, d)"
    by (simp add: profile_update_def assms(1) n)
  show "profile_delete env req d = (invalid_session, d)"
    by (simp add: profile_delete_def assms(1) n)
qed

text \<open>
  Claim C4 at \<^verbatim>\<open>DELETE /api/logout\<close>.  The profile routes resolve a token through
  \<^verbatim>\<open>getUserFromSession\<close>, which wants \<^verbatim>\<open>expiresAt\<close> in the future.  The
  log-out-everywhere route looks the token up without that filter.  At clock reading
  1000 the session \<open>E\<close> of user 1 expired at 500: the profile route answers
  \<open>INVALID_SESSION\<close>, while the logout route accepts the token and deletes the three
  sessions of user 1, the two live ones included.
\<close>

theorem logout_all_accepts_expired_session:
  "getUserFromSession 1000 ''E'' ex_db2 = None \<and>
   profile_get (ex_env 1000) (ex_request (Some ''E'') None) ex_db2 = (invalid_session, ex_db2) \<and>
   r_status (fst (logout_all (ex_env 1000) (ex_request (Some ''E'') None) ex_db2)) = 200 \<and>
   r_code (fst (logout_all (ex_env 1000) (ex_request (Some ''E'') None) ex_db2)) =
     ''LOGOUT_ALL_SUCCESS'' \<and>
   r_sessionsDeleted (fst (logout_all (ex_env 1000) (ex_request (Some ''E'') None) ex_db2)) = Some 3 \<and>
   sessions (snd (logout_all (ex_env 1000) (ex_request (Some ''E'') None) ex_db2)) =
     [ex_session ''C'' 2 5000]"
  by (simp add: getUserFromSession_def profile_get_def logout_all_def session_cookie_def
        findOne_def deleteMany_def deletedCount_def json_response_def
        ex_db2_def ex_session_def ex_request_def ex_env_def)

section \<open>Password change\<close>

lemma find_filter_keeps:
  assumes "\<And>x. P x \<Longrightarrow> Q x"
  shows "find P (filter Q xs) = find P xs"
  using assms by (induction xs) auto

lemma map_notin_neq: "f a \<notin> set (map f xs) \<Longrightarrow> x \<in> set xs \<Longrightarrow> f x \<noteq> f a"
  by (auto simp: image_iff)

lemma getUserFromSession_None:
  "getUserFromSession t tok d = None \<longleftrightarrow>
     \<not> list_ex (\<lambda>s. s_token s = tok \<and> t < s_expiresAt s) (sessions d)"
  using getUserFromSession_valid[of t tok d] by blast

lemma find_Some_holds: "find P xs = Some x \<Longrightarrow> P x \<and> x \<in> set xs"
  by (auto simp: find_Some_iff)

lemma list_ex_find: "list_ex P xs \<longleftrightarrow> find P xs \<noteq> None"
  by (auto simp: find_None_iff list_ex_iff)

lemma updateData_id: "u_id (updateData env u patch h v) = u_id v"
  by (simp add: updateData_def Let_def split: option.splits)

lemma updateData_lock:
  "u_loginAttempts (updateData env u patch h v) = u_loginAttempts v"
  "u_lockUntil (updateData env u patch h v) = u_lockUntil v"
  by (simp_all add: updateData_def Let_def split: option.splits)

lemma getUserFromSession_Some:
  assumes "getUserFromSession t tok d = Some (Some u, s)"
  shows "findOne (\<lambda>s. s_token s = tok \<and> s_expiresAt s > t) (sessions d) = Some s"
    and "findOne (\<lambda>v. u_id v = u_id u) (users d) = Some u"
    and "s_userId s = u_id u"
proof -
  from assms show a: "findOne (\<lambda>s. s_token s = tok \<and> s_expiresAt s > t) (sessions d) = Some s"
    by (auto simp: getUserFromSession_def split: option.splits)
  from assms a have b: "findOne (\<lambda>v. u_id v = s_userId s) (users d) = Some u"
    by (simp add: getUserFromSession_def)
  then show c: "s_userId s = u_id u"
    using find_Some_holds[of "\<lambda>v. u_id v = s_userId s" "users d" u] by (simp add: findOne_def)
  from b c show "findOne (\<lambda>v. u_id v = u_id u) (users d) = Some u" by simp
qed

lemma update_user_found:
  assumes "findOne (\<lambda>v. u_id v = i) (users d) = Some u"
      and "\<And>v. u_id (f v) = u_id v"
  shows "update_user i f d =
           ((json_response 200 ''PROFILE_UPDATED'' ''Profile updated successfully'')
              \<lparr> r_user := Some (profile_view (f u)) \<rparr>,
            d\<lparr> users := updateOne (\<lambda>v. u_id v = i) f (users d) \<rparr>)"
  using assms
  by (simp add: update_user_def list_ex_find findOne_def find_id_updateOne Let_def)

lemma password_change_result:
  assumes "session_cookie req = Some tokA"
      and "getUserFromSession (now env) tokA d = Some (Some u, sA)"
      and "q_json req = Some body"
      and "updateProfileSchema body = Inr patch"
      and "pp_newPassword patch = Some np"
      and "pp_currentPassword patch = Some cp"
      and "cp \<noteq> []"
      and "bcrypt_compare env cp (u_password u)"
  shows "profile_update env req d =
           ((json_response 200 ''PROFILE_UPDATED'' ''Profile updated successfully'')
              \<lparr> r_user := Some (profile_view
                                  (updateData env u patch (Some (bcrypt_hash env np)) u)) \<rparr>,
            \<lparr> users = updateOne (\<lambda>v. u_id v = u_id u)
                        (updateData env u patch (Some (bcrypt_hash env np))) (users d),
              sessions = deleteMany (\<lambda>s. s_userId s = u_id u \<and> s_token s \<noteq> tokA) (sessions d) \<rparr>)"
proof -
  note g = getUserFromSession_Some[OF assms(2)]
  let ?d1 = "d\<lparr> sessions := deleteMany (\<lambda>s. s_userId s = u_id u \<and> s_token s \<noteq> tokA)
                                 (sessions d) \<rparr>"
  have f: "findOne (\<lambda>v. u_id v = u_id u) (users ?d1) = Some u"
    using g(2) by simp
  have "profile_update env req d =
          update_user (u_id u) (updateData env u patch (Some (bcrypt_hash env np))) ?d1"
    using assms g(2) by (simp add: profile_update_def patch_user_def)
  then show ?thesis
    by (simp add: update_user_found[OF f updateData_id])
qed

text \<open>
  Claim C5.  A user has the sessions \<open>A\<close> (the token of the request) and \<open>B\<close>, both
  unexpired, and tokens are unique in the collection.  After a profile update that
  carries a new password and the current password that verifies, the sessions are those
  of before without the sessions of that user whose token is not \<open>A\<close>: \<open>A\<close> still
  resolves, \<open>B\<close> resolves at no time, and no session of the user other than \<open>A\<close>
  is left.
\<close>

theorem password_change_revokes_other_sessions:
  assumes "session_cookie req = Some tokA"
      and "getUserFromSession (now env) tokA d = Some (Some u, sA)"
      and "q_json req = Some body"
      and "updateProfileSchema body = Inr patch"
      and "pp_newPassword patch = Some np"
      and "pp_currentPassword patch = Some cp"
      and "cp \<noteq> []"
      and "bcrypt_compare env cp (u_password u)"
      and "sB \<in> set (sessions d)"
      and "s_userId sB = u_id u"
      and "s_token sB \<noteq> tokA"
      and "now env < s_expiresAt sB"
      and "distinct (map s_token (sessions d))"
  shows "r_status (fst (profile_update env req d)) = 200 \<and>
         sessions (snd (profile_update env req d)) =
           deleteMany (\<lambda>s. s_userId s = u_id u \<and> s_token s \<noteq> tokA) (sessions d) \<and>
         getUserFromSession (now env) (s_token sB) d \<noteq> None \<and>
         getUserFromSession (now env) tokA (snd (profile_update env req d)) \<noteq> None \<and>
         (\<forall>t. getUserFromSession t (s_token sB) (snd (profile_update env req d)) = None) \<and>
         \<not> list_ex (\<lambda>s. s_userId s = u_id u \<and> s_token s \<noteq> tokA)
             (sessions (snd (profile_update env req d)))"
proof -
  note r = password_change_result[OF assms(1-8)]
  note g = getUserFromSession_Some[OF assms(2)]
  let ?del = "\<lambda>s. s_userId s = u_id u \<and> s_token s \<noteq> tokA"
  let ?d' = "snd (profile_update env req d)"
  have s': "sessions ?d' = deleteMany ?del (sessions d)"
    by (simp add: r)
  have "list_ex (\<lambda>s. s_token s = s_token sB \<and> now env < s_expiresAt s) (sessions d)"
    using assms(9,12) by (auto simp: list_ex_iff)
  with getUserFromSession_valid[of "now env" "s_token sB" d]
  have before: "getUserFromSession (now env) (s_token sB) d \<noteq> None"
    by blast
  have "find (\<lambda>s. s_token s = tokA \<and> s_expiresAt s > now env) (deleteMany ?del (sessions d)) =
          find (\<lambda>s. s_token s = tokA \<and> s_expiresAt s > now env) (sessions d)"
    unfolding deleteMany_def by (rule find_filter_keeps) simp
  then have a: "getUserFromSession (now env) tokA ?d' \<noteq> None"
    using g(1) by (simp add: getUserFromSession_def s' findOne_def)
  have b: "getUserFromSession t (s_token sB) ?d' = None" for t
  proof -
    have "\<not> list_ex (\<lambda>s. s_token s = s_token sB \<and> t < s_expiresAt s) (deleteMany ?del (sessions d))"
    proof
      assume "list_ex (\<lambda>s. s_token s = s_token sB \<and> t < s_expiresAt s) (deleteMany ?del (sessions d))"
      then obtain s where s: "s \<in> set (sessions d)" "\<not> ?del s" "s_token s = s_token sB"
        by (auto simp: list_ex_iff deleteMany_def)
      from assms(13) have "inj_on s_token (set (sessions d))"
        by (simp add: distinct_map)
      with s(1,3) assms(9) have "s = sB" by (auto dest: inj_onD)
      with s(2) assms(10,11) show False by simp
    qed
    then show ?thesis
      by (simp add: getUserFromSession_None s')
  qed
  have c: "\<not> list_ex ?del (sessions ?d')"
    by (simp add: s' deleteMany_def list_ex_iff)
  from s' before a b c show ?thesis
    by (simp add: r json_response_def)
qed

lemma ex_patch_schema: "updateProfileSchema ex_password_change = Inr ex_patch"
proof -
  have "password_regex ''Xyzabc2?''"
    by (simp add: password_regex_def first_line_def lower_chars_def upper_chars_def
          digit_chars_def special_chars_def)
  then show ?thesis
    by (simp add: updateProfileSchema_def zod_optional_string_def password_checks_def
          updateProfileSchema_preferences_def ex_password_change_def ex_patch_def)
qed

lemma ex_session_A:
  "getUserFromSession 1000 ''A'' ex_db2 =
     Some (Some (ex_user 1 ''a@b.com'' None None), ex_session ''A'' 1 5000)"
  by (simp add: getUserFromSession_def findOne_def ex_db2_def ex_session_def ex_user_def)

lemma ex_db2_distinct:
  "distinct (map s_token (sessions ex_db2))"
  "distinct (map u_id (users ex_db2))"
  "distinct (map u_email (users ex_db2))"
  by (simp_all add: ex_db2_def ex_session_def ex_user_def)

lemma ex_env_fields:
  "now (ex_env t) = t"
  "tx_fault (ex_env t) = None"
  "bcrypt_compare (ex_env t) ''Abcdef1!'' (u_password (ex_user i e a l))"
  by (simp_all add: ex_env_def ex_user_def)

theorem password_change_revokes_other_sessions_witness:
  "getUserFromSession 1000 ''A'' ex_db2 \<noteq> None \<and>
   getUserFromSession 1000 ''B'' ex_db2 \<noteq> None \<and>
   r_status (fst (profile_update (ex_env 1000) (ex_request (Some ''A'') (Some ex_password_change))
                    ex_db2)) = 200 \<and>
   getUserFromSession 1000 ''A''
     (snd (profile_update (ex_env 1000) (ex_request (Some ''A'') (Some ex_password_change))
             ex_db2)) \<noteq> None \<and>
   getUserFromSession 1000 ''B''
     (snd (profile_update (ex_env 1000) (ex_request (Some ''A'') (Some ex_password_change))
             ex_db2)) = None"
proof -
  let ?req = "ex_request (Some ''A'') (Some ex_password_change)"
  let ?B = "ex_session ''B'' 1 5000"
  have c: "session_cookie ?req = Some ''A''" and q: "q_json ?req = Some ex_password_change"
    by (simp_all add: session_cookie_def ex_request_def)
  have g: "getUserFromSession (now (ex_env 1000)) ''A'' ex_db2 =
             Some (Some (ex_user 1 ''a@b.com'' None None), ex_session ''A'' 1 5000)"
    by (simp add: ex_env_fields ex_session_A)
  have p: "pp_newPassword ex_patch = Some ''Xyzabc2?''"
          "pp_currentPassword ex_patch = Some ''Abcdef1!''" "''Abcdef1!'' \<noteq> []"
    by (simp_all add: ex_patch_def)
  have b: "?B \<in> set (sessions ex_db2)" "s_userId ?B = u_id (ex_user 1 ''a@b.com'' None None)"
          "s_token ?B \<noteq> ''A''" "now (ex_env 1000) < s_expiresAt ?B"
    by (simp_all add: ex_db2_def ex_session_def ex_user_def ex_env_fields)
  note t = password_change_revokes_other_sessions[OF c g q ex_patch_schema p ex_env_fields(3) b
             ex_db2_distinct(1)]
  have tb: "\<And>k i e. s_token (ex_session k i e) = k"
    by (simp add: ex_session_def)
  from t show ?thesis
    by (simp add: ex_env_fields ex_session_A tb)
qed

section \<open>Account deletion\<close>

lemma deleteOne_id_gone:
  "distinct (map u_id xs) \<Longrightarrow> \<not> list_ex (\<lambda>v. u_id v = i) (deleteOne (\<lambda>v. u_id v = i) xs)"
proof (induction xs)
  case Nil
  then show ?case by simp
next
  case (Cons a xs)
  show ?case
  proof (cases "u_id a = i")
    case True
    from Cons.prems have "u_id a \<notin> set (map u_id xs)" by simp
    then have "\<forall>v\<in>set xs. u_id v \<noteq> u_id a"
      using map_notin_neq[of u_id a xs] by blast
    with True show ?thesis by (simp add: list_ex_iff)
  next
    case False
    with Cons show ?thesis by simp
  qed
qed

lemma deleteOne_email_gone:
  assumes "distinct (map u_email xs)"
      and "find (\<lambda>v. u_id v = u_id u) xs = Some u"
  shows "find (\<lambda>v. u_email v = u_email u) (deleteOne (\<lambda>v. u_id v = u_id u) xs) = None"
  using assms
proof (induction xs)
  case Nil
  then show ?case by simp
next
  case (Cons x xs)
  show ?case
  proof (cases "u_id x = u_id u")
    case True
    with Cons.prems have "x = u" by simp
    from Cons.prems(1) have "u_email x \<notin> set (map u_email xs)" by simp
    with \<open>x = u\<close> have "\<forall>v\<in>set xs. u_email v \<noteq> u_email u"
      using map_notin_neq[of u_email u xs] by blast
    with True show ?thesis
      by (simp add: find_None_iff)
  next
    case False
    with Cons.prems have f: "find (\<lambda>v. u_id v = u_id u) xs = Some u" by simp
    then have "u \<in> set xs" by (simp add: find_Some_holds)
    moreover from Cons.prems(1) have "u_email x \<notin> set (map u_email xs)" by simp
    ultimately have "u_email x \<noteq> u_email u"
      using map_notin_neq[of u_email x xs u] by simp
    with False f Cons show ?thesis by simp
  qed
qed

lemma delete_account_tx_result:
  "delete_account_tx fault uid d =
     (if fault = Some 0 \<or> fault = Some 1 \<or> fault = Some 2 then Inl StoreError
      else Inr \<lparr> users = deleteOne (\<lambda>v. u_id v = uid) (users d),
                sessions = deleteMany (\<lambda>s. s_userId s = uid) (sessions d) \<rparr>)"
  by (simp add: delete_account_tx_def Let_def)

lemma profile_delete_confirmed:
  assumes "session_cookie req = Some tok"
      and "getUserFromSession (now env) tok d = Some (Some u, s)"
      and "q_json req = Some body"
      and "confirmPassword body = Some (JStr pw)"
      and "pw \<noteq> []"
      and "bcrypt_compare env pw (u_password u)"
  shows "profile_delete env req d =
           (if tx_fault env = Some 0 \<or> tx_fault env = Some 1 \<or> tx_fault env = Some 2
            then (internal_error ''Internal server error'', d)
            else ((json_response 200 ''ACCOUNT_DELETED'' ''Account deleted successfully'')
                    \<lparr> r_cookie := Some (clear_cookie env) \<rparr>,
                  \<lparr> users = deleteOne (\<lambda>v. u_id v = u_id u) (users d),
                    sessions = deleteMany (\<lambda>s. s_userId s = u_id u) (sessions d) \<rparr>))"
proof -
  note g = getUserFromSession_Some[OF assms(2)]
  from assms(4) obtain kvs where b: "body = JObj kvs"
    by (cases body) (simp_all add: confirmPassword_def)
  show ?thesis
    using assms g(2)
    by (simp add: profile_delete_def b withTransaction_def delete_account_tx_result)
qed

text \<open>
  Claim C6.  The two deletions run inside one transaction of the store.  For a delete
  request that resolves its session to a user and confirms the password: when the store
  fails at the first deletion, between the two deletions or at the commit, the answer is
  500 and the store is exactly as before; otherwise the answer is 200, no session of the
  user and no user with that identifier is left, and (e-mails being unique) the lookup by
  the user's e-mail finds nothing.  In both outcomes a session of the user is left only
  if the user is.
\<close>

theorem account_deletion_atomic:
  assumes "session_cookie req = Some tok"
      and "getUserFromSession (now env) tok d = Some (Some u, s)"
      and "q_json req = Some body"
      and "confirmPassword body = Some (JStr pw)"
      and "pw \<noteq> []"
      and "bcrypt_compare env pw (u_password u)"
      and "distinct (map u_id (users d))"
      and "distinct (map u_email (users d))"
  shows "(if tx_fault env = Some 0 \<or> tx_fault env = Some 1 \<or> tx_fault env = Some 2
          then r_status (fst (profile_delete env req d)) = 500 \<and>
               snd (profile_delete env req d) = d
          else r_status (fst (profile_delete env req d)) = 200 \<and>
               r_code (fst (profile_delete env req d)) = ''ACCOUNT_DELETED'' \<and>
               sessions (snd (profile_delete env req d)) =
                 deleteMany (\<lambda>s. s_userId s = u_id u) (sessions d) \<and>
               users (snd (profile_delete env req d)) =
                 deleteOne (\<lambda>v. u_id v = u_id u) (users d) \<and>
               \<not> list_ex (\<lambda>s. s_userId s = u_id u) (sessions (snd (profile_delete env req d))) \<and>
               \<not> list_ex (\<lambda>v. u_id v = u_id u) (users (snd (profile_delete env req d))) \<and>
               findOne (\<lambda>v. u_email v = u_email u) (users (snd (profile_delete env req d))) = None) \<and>
         (list_ex (\<lambda>v. u_id v = u_id u) (users (snd (profile_delete env req d))) \<or>
          \<not> list_ex (\<lambda>s. s_userId s = u_id u) (sessions (snd (profile_delete env req d))))"
proof -
  note r = profile_delete_confirmed[OF assms(1-6)]
  note g = getUserFromSession_Some[OF assms(2)]
  have here: "list_ex (\<lambda>v. u_id v = u_id u) (users d)"
    using g(2) by (simp add: list_ex_find findOne_def)
  have gone_s: "\<not> list_ex (\<lambda>s. s_userId s = u_id u) (deleteMany (\<lambda>s. s_userId s = u_id u) (sessions d))"
    by (simp add: deleteMany_def list_ex_iff)
  have gone_e: "find (\<lambda>v. u_email v = u_email u) (deleteOne (\<lambda>v. u_id v = u_id u) (users d)) = None"
    using deleteOne_email_gone[OF assms(8)] g(2) by (simp add: findOne_def)
  show ?thesis
    using here gone_s gone_e deleteOne_id_gone[OF assms(7), of "u_id u"]
    by (simp add: r internal_error_def json_response_def findOne_def)
qed

lemma ex_confirm: "confirmPassword ex_confirmation = Some (JStr ''Abcdef1!'')"
  by (simp add: confirmPassword_def ex_confirmation_def)

theorem account_deletion_atomic_witness:
  "r_status (fst (profile_delete (ex_env 1000) (ex_request (Some ''A'') (Some ex_confirmation))
                    ex_db2)) = 200 \<and>
   sessions (snd (profile_delete (ex_env 1000) (ex_request (Some ''A'') (Some ex_confirmation))
                    ex_db2)) = [ex_session ''C'' 2 5000] \<and>
   users (snd (profile_delete (ex_env 1000) (ex_request (Some ''A'') (Some ex_confirmation))
                 ex_db2)) = [ex_user 2 ''c@d.com'' None None] \<and>
   r_status (fst (profile_delete ((ex_env 1000)\<lparr> tx_fault := Some 1 \<rparr>)
                    (ex_request (Some ''A'') (Some ex_confirmation)) ex_db2)) = 500 \<and>
   snd (profile_delete ((ex_env 1000)\<lparr> tx_fault := Some 1 \<rparr>)
          (ex_request (Some ''A'') (Some ex_confirmation)) ex_db2) = ex_db2"
proof -
  let ?req = "ex_request (Some ''A'') (Some ex_confirmation)"
  let ?env1 = "(ex_env 1000)\<lparr> tx_fault := Some 1 \<rparr>"
  let ?u = "ex_user 1 ''a@b.com'' None None"
  have c: "session_cookie ?req = Some ''A''" and q: "q_json ?req = Some ex_confirmation"
    by (simp_all add: session_cookie_def ex_request_def)
  have g: "getUserFromSession (now (ex_env 1000)) ''A'' ex_db2 = Some (Some ?u, ex_session ''A'' 1 5000)"
          "getUserFromSession (now ?env1) ''A'' ex_db2 = Some (Some ?u, ex_session ''A'' 1 5000)"
    by (simp_all add: ex_env_fields ex_session_A)
  have ne: "''Abcdef1!'' \<noteq> []"
    by simp
  have bc: "bcrypt_compare ?env1 ''Abcdef1!'' (u_password ?u)"
    by (simp add: ex_env_def ex_user_def)
  note t0 = account_deletion_atomic[OF c g(1) q ex_confirm ne ex_env_fields(3) ex_db2_distinct(2,3)]
  note t1 = account_deletion_atomic[OF c g(2) q ex_confirm ne bc ex_db2_distinct(2,3)]
  from t0 t1 show ?thesis
    by (simp add: ex_env_fields deleteMany_def ex_db2_def ex_session_def ex_user_def)
qed

section \<open>Where the counter changes\<close>

lemma find_id_unique:
  "distinct (map u_id xs) \<Longrightarrow> u \<in> set xs \<Longrightarrow> find (\<lambda>v. u_id v = u_id u) xs = Some u"
proof (induction xs)
  case Nil
  then show ?case by simp
next
  case (Cons x xs)
  show ?case
  proof (cases "x = u")
    case True
    then show ?thesis by simp
  next
    case False
    with Cons.prems have "u \<in> set xs" by simp
    moreover from Cons.prems have "u_id x \<notin> set (map u_id xs)" by simp
    ultimately have "u_id x \<noteq> u_id u"
      using map_notin_neq[of u_id x xs u] by simp
    with Cons \<open>u \<in> set xs\<close> show ?thesis by simp
  qed
qed

lemma find_id_deleteOne:
  "distinct (map u_id xs) \<Longrightarrow>
     find (\<lambda>v. u_id v = i) (deleteOne (\<lambda>v. u_id v = j) xs) =
       (if i = j then None else find (\<lambda>v. u_id v = i) xs)"
proof (induction xs)
  case Nil
  then show ?case by simp
next
  case (Cons x xs)
  show ?case
  proof (cases "u_id x = j")
    case True
    from Cons.prems have "u_id x \<notin> set (map u_id xs)" by simp
    then have "\<forall>v\<in>set xs. u_id v \<noteq> u_id x"
      using map_notin_neq[of u_id x xs] by blast
    with True show ?thesis by (auto simp: find_None_iff)
  next
    case False
    with Cons show ?thesis by auto
  qed
qed

lemma find_append_Some: "find P xs = Some v \<Longrightarrow> find P (xs @ ys) = Some v"
  by (induction xs) (auto split: if_splits)

lemma login_success_step:
  assumes "right_password_attempt e (u_password u) (env, req)"
      and "findOne (\<lambda>v. u_email v = e) (users d) = Some u"
      and "\<not> is_locked u (now env)"
  shows "r_status (fst (login env req d)) = 200"
    and "users (snd (login env req d)) =
           updateOne (\<lambda>v. u_id v = u_id u) (success_update (now env)) (users d)"
proof -
  from right_password_attempt_body[OF assms(1)] obtain data where
    b: "login_body env req = Some data" and e: "ld_email data = e"
    and w: "bcrypt_compare env (ld_password data) (u_password u)" by blast
  show "r_status (fst (login env req d)) = 200"
    using assms(2,3) e w
    by (simp add: login_body_Some[OF b] login_with_user_def Let_def json_response_def)
  show "users (snd (login env req d)) =
          updateOne (\<lambda>v. u_id v = u_id u) (success_update (now env)) (users d)"
    using assms(2,3) e w
    by (simp add: login_body_Some[OF b] login_with_user_def Let_def)
qed

text \<open>What a login does to the users: nothing, or one update of the account it found
  unlocked, by the failure update or the success update according to the password test.\<close>

lemma login_users:
  "users (snd (login env req d)) = users d \<or>
   (\<exists>data u. login_body env req = Some data \<and>
       findOne (\<lambda>v. u_email v = ld_email data) (users d) = Some u \<and>
       \<not> is_locked u (now env) \<and>
       users (snd (login env req d)) =
         updateOne (\<lambda>v. u_id v = u_id u)
           (if bcrypt_compare env (ld_password data) (u_password u)
            then success_update (now env)
            else failed_update (attempts_read u + 1) (now env))
           (users d))"
proof (cases "login_body env req")
  case None
  then show ?thesis by (simp add: login_body_None)
next
  case (Some data)
  show ?thesis
  proof (cases "findOne (\<lambda>v. u_email v = ld_email data) (users d)")
    case None
    then show ?thesis
      by (simp add: login_body_Some[OF Some] login_with_user_def)
  next
    case (Some u)
    show ?thesis
    proof (cases "is_locked u (now env)")
      case True
      with Some show ?thesis
        by (simp add: login_body_Some[OF \<open>login_body env req = Some data\<close>] login_with_user_def)
    next
      case False
      with Some \<open>login_body env req = Some data\<close> show ?thesis
        by (simp add: login_body_Some[OF \<open>login_body env req = Some data\<close>]
              login_with_user_def Let_def)
    qed
  qed
qed

lemma login_counter_change:
  assumes "distinct (map u_id (users d))"
      and "findOne (\<lambda>w. u_id w = i) (users d) = Some v"
      and "findOne (\<lambda>w. u_id w = i) (users (snd (login env req d))) = Some v'"
      and "u_loginAttempts v' \<noteq> u_loginAttempts v"
  shows "\<exists>data. login_body env req = Some data \<and>
           findOne (\<lambda>w. u_email w = ld_email data) (users d) = Some v \<and>
           \<not> is_locked v (now env) \<and>
           (if bcrypt_compare env (ld_password data) (u_password v)
            then u_loginAttempts v' = None \<and> u_lockUntil v' = None
            else u_loginAttempts v' = Some (attempts_read v + 1))"
proof -
  from login_users[of env req d] assms(2-4) obtain data u where
    b: "login_body env req = Some data"
    and f: "findOne (\<lambda>w. u_email w = ld_email data) (users d) = Some u"
    and nl: "\<not> is_locked u (now env)"
    and us: "users (snd (login env req d)) =
               updateOne (\<lambda>w. u_id w = u_id u)
                 (if bcrypt_compare env (ld_password data) (u_password u)
                  then success_update (now env)
                  else failed_update (attempts_read u + 1) (now env))
                 (users d)"
    by auto
  define g where "g = (if bcrypt_compare env (ld_password data) (u_password u)
                       then success_update (now env)
                       else failed_update (attempts_read u + 1) (now env))"
  have idg: "\<And>w. u_id (g w) = u_id w"
    by (simp add: g_def success_update_fields failed_update_fields)
  have "find (\<lambda>w. u_id w = i) (updateOne (\<lambda>w. u_id w = u_id u) g (users d)) =
          (if i = u_id u then map_option g (find (\<lambda>w. u_id w = i) (users d))
           else find (\<lambda>w. u_id w = i) (users d))"
    by (rule find_id_updateOne[OF idg])
  with assms(2,3) us have fi: "(if i = u_id u then g v else v) = v'"
    by (simp add: findOne_def g_def[symmetric] split: if_splits)
  with assms(4) have i: "i = u_id u"
    by (auto split: if_splits)
  from f have "u \<in> set (users d)"
    by (simp add: findOne_def find_Some_holds)
  from find_id_unique[OF assms(1) this] assms(2) i have uv: "u = v"
    by (simp add: findOne_def)
  from fi i have v': "v' = g v" by simp
  show ?thesis
  proof (cases "bcrypt_compare env (ld_password data) (u_password v)")
    case True
    with b f nl uv v' show ?thesis
      by (auto simp: g_def success_update_fields)
  next
    case False
    with b f nl uv v' show ?thesis
      by (auto simp: g_def failed_update_fields)
  qed
qed

lemma register_users:
  "users (snd (register env req d)) = users d \<or>
   (\<exists>data. users (snd (register env req d)) = users d @ [newUser env data])"
  by (auto simp: register_def insertOne_def split: option.splits sum.splits)

lemma logout_users:
  "users (snd (logout env req d)) = users d"
  "users (snd (logout_all env req d)) = users d"
  "users (snd (profile_get env req d)) = users d"
  by (auto simp: logout_def logout_all_def profile_get_def Let_def split: option.splits)

lemma update_user_users:
  "users (snd (update_user i f d)) = users d \<or>
   users (snd (update_user i f d)) = updateOne (\<lambda>v. u_id v = i) f (users d)"
  by (auto simp: update_user_def Let_def split: option.splits)

lemma patch_user_users:
  "users (snd (patch_user env tok patch u d)) = users d \<or>
   (\<exists>h. users (snd (patch_user env tok patch u d)) =
           updateOne (\<lambda>v. u_id v = u_id u) (updateData env u patch h) (users d))"
proof (cases "pp_newPassword patch")
  case None
  with update_user_users[of "u_id u" "updateData env u patch None" d] show ?thesis
    by (auto simp: patch_user_def)
next
  case (Some np)
  let ?d1 = "d\<lparr> sessions := deleteMany (\<lambda>s. s_userId s = u_id u \<and> s_token s \<noteq> tok)
                                 (sessions d) \<rparr>"
  let ?f = "updateData env u patch (Some (bcrypt_hash env np))"
  from update_user_users[of "u_id u" ?f ?d1]
  have k: "users (snd (update_user (u_id u) ?f ?d1)) = users d \<or>
           (\<exists>h. users (snd (update_user (u_id u) ?f ?d1)) =
                  updateOne (\<lambda>v. u_id v = u_id u) (updateData env u patch h) (users d))"
    by auto
  show ?thesis
  proof (cases "patch_user env tok patch u d = update_user (u_id u) ?f ?d1")
    case True
    with k show ?thesis by simp
  next
    case False
    with Some have "snd (patch_user env tok patch u d) = d"
      by (auto simp: patch_user_def split: option.splits if_splits)
    then show ?thesis by simp
  qed
qed

lemma profile_update_users:
  "users (snd (profile_update env req d)) = users d \<or>
   (\<exists>u patch h. users (snd (profile_update env req d)) =
           updateOne (\<lambda>v. u_id v = u_id u) (updateData env u patch h) (users d))"
  using patch_user_users
  by (auto simp: profile_update_def split: option.splits sum.splits prod.splits) blast+

lemma profile_delete_users:
  "users (snd (profile_delete env req d)) = users d \<or>
   (\<exists>j. users (snd (profile_delete env req d)) = deleteOne (\<lambda>v. u_id v = j) (users d))"
  by (auto simp: profile_delete_def withTransaction_def delete_account_tx_result
           split: option.splits sum.splits prod.splits json.splits)

text \<open>No other route touches the counter or the lock of a user that is still there.\<close>

lemma other_routes_keep_counter:
  assumes "distinct (map u_id (users d))"
      and "findOne (\<lambda>w. u_id w = i) (users d) = Some v"
      and "h = register \<or> h = logout \<or> h = logout_all \<or> h = profile_get \<or>
           h = profile_update \<or> h = profile_delete"
      and "findOne (\<lambda>w. u_id w = i) (users (snd (h env req d))) = Some v'"
  shows "u_loginAttempts v' = u_loginAttempts v \<and> u_lockUntil v' = u_lockUntil v"
proof -
  consider "users (snd (h env req d)) = users d"
    | data where "users (snd (h env req d)) = users d @ [newUser env data]"
    | u patch hh where "users (snd (h env req d)) =
         updateOne (\<lambda>v. u_id v = u_id u) (updateData env u patch hh) (users d)"
    | j where "users (snd (h env req d)) = deleteOne (\<lambda>v. u_id v = j) (users d)"
    using assms(3) register_users[of env req d] logout_users[of env req d]
      profile_update_users[of env req d] profile_delete_users[of env req d]
    by blast
  then show ?thesis
  proof cases
    case 1
    with assms(2,4) show ?thesis by simp
  next
    case 2
    with assms(2,4) show ?thesis
      by (simp add: findOne_def find_append_Some)
  next
    case 3
    with assms(2,4) show ?thesis
      by (auto simp: findOne_def find_id_updateOne[OF updateData_id] updateData_lock
               split: if_splits)
  next
    case 4
    with assms(2,4) show ?thesis
      by (simp add: findOne_def find_id_deleteOne[OF assms(1)] split: if_splits)
  qed
qed

text \<open>
  Claim C3.  In a collection with unique identifiers: a login for an account that is not
  locked at the time, with a password that verifies, is answered 200 and leaves the
  account without \<open>loginAttempts\<close> (it reads 0) and without \<open>lockUntil\<close>, whatever
  both were before.  And the stored counter of a user changes in one place only: when a
  login finds that user unlocked and tests the password, to the count read plus one if
  the test fails and to absent (with the lock) if it succeeds; registration, logout,
  logout from all devices and the three profile routes leave the counter and the lock of
  every remaining user as they were.
\<close>

theorem counter_reset_on_success_only:
  assumes "distinct (map u_id (users d))"
      and "findOne (\<lambda>v. u_email v = e) (users d) = Some u"
      and "right_password_attempt e (u_password u) (env, req)"
      and "\<not> is_locked u (now env)"
  shows "r_status (fst (login env req d)) = 200 \<and>
         (\<exists>u'. findOne (\<lambda>v. u_email v = e) (users (snd (login env req d))) = Some u' \<and>
                u_loginAttempts u' = None \<and> attempts_read u' = 0 \<and> u_lockUntil u' = None) \<and>
         (\<forall>env' req' i v v'.
            findOne (\<lambda>w. u_id w = i) (users d) = Some v \<and>
            findOne (\<lambda>w. u_id w = i) (users (snd (login env' req' d))) = Some v' \<and>
            u_loginAttempts v' \<noteq> u_loginAttempts v \<longrightarrow>
            (\<exists>data. login_body env' req' = Some data \<and>
               findOne (\<lambda>w. u_email w = ld_email data) (users d) = Some v \<and>
               \<not> is_locked v (now env') \<and>
               (if bcrypt_compare env' (ld_password data) (u_password v)
                then u_loginAttempts v' = None \<and> u_lockUntil v' = None
                else u_loginAttempts v' = Some (attempts_read v + 1)))) \<and>
         (\<forall>h env' req' i v v'.
            (h = register \<or> h = logout \<or> h = logout_all \<or> h = profile_get \<or>
             h = profile_update \<or> h = profile_delete) \<and>
            findOne (\<lambda>w. u_id w = i) (users d) = Some v \<and>
            findOne (\<lambda>w. u_id w = i) (users (snd (h env' req' d))) = Some v' \<longrightarrow>
            u_loginAttempts v' = u_loginAttempts v \<and> u_lockUntil v' = u_lockUntil v)"
proof -
  note s = login_success_step[OF assms(3,2,4)]
  have A: "r_status (fst (login env req d)) = 200" by (rule s(1))
  have "findOne (\<lambda>v. u_email v = e) (users (snd (login env req d))) =
          Some (success_update (now env) u)"
    using assms(1,2) by (simp add: s(2) findOne_def find_updateOne success_update_fields)
  then have B: "\<exists>u'. findOne (\<lambda>v. u_email v = e) (users (snd (login env req d))) = Some u' \<and>
                u_loginAttempts u' = None \<and> attempts_read u' = 0 \<and> u_lockUntil u' = None"
    by (simp add: success_update_fields attempts_read_def)
  have C: "\<forall>env' req' i v v'.
            findOne (\<lambda>w. u_id w = i) (users d) = Some v \<and>
            findOne (\<lambda>w. u_id w = i) (users (snd (login env' req' d))) = Some v' \<and>
            u_loginAttempts v' \<noteq> u_loginAttempts v \<longrightarrow>
            (\<exists>data. login_body env' req' = Some data \<and>
               findOne (\<lambda>w. u_email w = ld_email data) (users d) = Some v \<and>
               \<not> is_locked v (now env') \<and>
               (if bcrypt_compare env' (ld_password data) (u_password v)
                then u_loginAttempts v' = None \<and> u_lockUntil v' = None
                else u_loginAttempts v' = Some (attempts_read v + 1)))"
    using login_counter_change[OF assms(1)] by blast
  have D: "\<forall>h env' req' i v v'.
            (h = register \<or> h = logout \<or> h = logout_all \<or> h = profile_get \<or>
             h = profile_update \<or> h = profile_delete) \<and>
            findOne (\<lambda>w. u_id w = i) (users d) = Some v \<and>
            findOne (\<lambda>w. u_id w = i) (users (snd (h env' req' d))) = Some v' \<longrightarrow>
            u_loginAttempts v' = u_loginAttempts v \<and> u_lockUntil v' = u_lockUntil v"
    using other_routes_keep_counter[OF assms(1)] by blast
  show ?thesis
    by (intro conjI A B C D)
qed

lemma ex_right_attempt:
  "right_password_attempt ''a@b.com'' ''#Abcdef1!'' (ex_env t, ex_login ''A@B.com'' ''Abcdef1!'')"
  by (simp add: right_password_attempt_def ex_simps client_ip_def loginSchema_simps lower_simps)

theorem counter_reset_on_success_only_witness:
  "u_loginAttempts (ex_user 1 ''a@b.com'' (Some 3) (Some 500)) = Some 3 \<and>
   r_status (fst (login (ex_env 1000) (ex_login ''A@B.com'' ''Abcdef1!'')
                    (ex_db (Some 3) (Some 500)))) = 200 \<and>
   (\<exists>u'. findOne (\<lambda>v. u_email v = ''a@b.com'')
            (users (snd (login (ex_env 1000) (ex_login ''A@B.com'' ''Abcdef1!'')
                           (ex_db (Some 3) (Some 500))))) = Some u' \<and>
          u_loginAttempts u' = None \<and> attempts_read u' = 0 \<and> u_lockUntil u' = None)"
proof -
  let ?u = "ex_user 1 ''a@b.com'' (Some 3) (Some 500)"
  have d: "distinct (map u_id (users (ex_db (Some 3) (Some 500))))"
    by (simp add: ex_db_def)
  have f: "findOne (\<lambda>v. u_email v = ''a@b.com'') (users (ex_db (Some 3) (Some 500))) = Some ?u"
    by (simp add: ex_db_def findOne_def ex_user_def)
  have r: "right_password_attempt ''a@b.com'' (u_password ?u)
             (ex_env 1000, ex_login ''A@B.com'' ''Abcdef1!'')"
    using ex_right_attempt[of 1000] by (simp add: ex_user_def)
  have n: "\<not> is_locked ?u (now (ex_env 1000))"
    by (simp add: is_locked_def ex_user_def ex_env_def)
  from counter_reset_on_success_only[OF d f r n] show ?thesis
    by (simp add: ex_user_def)
qed

end
